theory Spec2Isabelle
  imports Main "HOL-Library.Product_Lexorder" "HOL-Library.Multiset"
begin

section \<open>The firemorph migration engine\<close>

text \<open>
  The repository holds two snapshots of the engine. The later one (with \<open>dryRun\<close> and
  \<open>single\<close>, a \<open>try/catch\<close> around \<open>migrate\<close> and a \<open>throw\<close> after a failed
  migration) is the module that starts at line 42 of \<^verbatim>\<open>src/src/cli.ts\<close>; the earlier one
  is \<^verbatim>\<open>src/src/index.ts\<close>. The functions of the later snapshot keep their names here,
  those of the earlier one carry the suffix \<open>_index\<close>.

  The libraries the engine calls (semver, path, glob, the Firestore client, the module
  loader) are not part of the repository. They are modelled by the small executable
  definitions of the next subsections, on ASCII strings, with what is left out written
  next to each.
\<close>

subsection \<open>The semver library: \<open>coerce\<close> and \<open>gt\<close>\<close>

text \<open>
  A \<open>SemVer\<close> object produced by \<open>semver.coerce\<close> is the triple (major, minor, patch);
  it has no prerelease and no build part. Its field \<open>.version\<close> is the canonical string
  \<open>major.minor.patch\<close>, which determines the triple and is determined by it, so the
  engine's string comparisons (\<open>versions.includes\<close>, \<open>m.version === v\<close>) are equality of
  triples and \<open>semver.gt\<close> on two such strings is \<open>gt\<close> on the triples.
\<close>

type_synonym semver = "nat \<times> nat \<times> nat"

definition is_digit :: "char \<Rightarrow> bool" where
  "is_digit c \<longleftrightarrow> c \<in> set ''0123456789''"

definition digit_value :: "char \<Rightarrow> nat" where
  "digit_value c = of_char c - 48"

definition to_number :: "string \<Rightarrow> nat" where
  "to_number s = foldl (\<lambda>n c. 10 * n + digit_value c) 0 s"

text \<open>
  The strict parser behind \<open>coerce\<close> accepts a numeric identifier only when it has no
  leading zero and is at most \<open>Number.MAX_SAFE_INTEGER\<close>.
\<close>

definition MAX_SAFE_INTEGER :: nat where
  "MAX_SAFE_INTEGER = 9007199254740991"

definition numeric_identifier :: "string \<Rightarrow> bool" where
  "numeric_identifier s \<longleftrightarrow>
     (s = ''0'' \<or> (s \<noteq> [] \<and> hd s \<noteq> CHR ''0'')) \<and> to_number s \<le> MAX_SAFE_INTEGER"

text \<open>
  The regular expression of \<open>coerce\<close> is
  \<^verbatim>\<open>(^|[^\d])(\d{1,16})(?:\.(\d{1,16}))?(?:\.(\d{1,16}))?(?:$|[^\d])\<close>:
  the major number is the first maximal run of at most 16 digits (a longer run cannot
  match at all and is skipped), and each of the two optional groups is a dot followed by
  a maximal run of 1 to 16 digits.
\<close>

function find_major :: "string \<Rightarrow> (string \<times> string) option" where
  "find_major [] = None"
| "find_major (c # cs) =
     (if is_digit c then
        (if length (takeWhile is_digit (c # cs)) \<le> 16
         then Some (takeWhile is_digit (c # cs), dropWhile is_digit (c # cs))
         else find_major (dropWhile is_digit cs))
      else find_major cs)"
  by pat_completeness auto
termination
  by (relation "measure length") (auto simp: less_Suc_eq_le length_dropWhile_le)

definition dot_component :: "string \<Rightarrow> (string \<times> string) option" where
  "dot_component s =
     (case s of
        [] \<Rightarrow> None
      | c # r \<Rightarrow>
          if c = CHR ''.'' \<and> 1 \<le> length (takeWhile is_digit r) \<and> length (takeWhile is_digit r) \<le> 16
          then Some (takeWhile is_digit r, dropWhile is_digit r)
          else None)"

definition coerce :: "string \<Rightarrow> semver option" where
  "coerce s =
     (case find_major s of
        None \<Rightarrow> None
      | Some (ma, r1) \<Rightarrow>
          (case dot_component r1 of
             None \<Rightarrow>
               if numeric_identifier ma then Some (to_number ma, 0, 0) else None
           | Some (mi, r2) \<Rightarrow>
               (case dot_component r2 of
                  None \<Rightarrow>
                    if numeric_identifier ma \<and> numeric_identifier mi
                    then Some (to_number ma, to_number mi, 0) else None
                | Some (pa, r3) \<Rightarrow>
                    if numeric_identifier ma \<and> numeric_identifier mi \<and> numeric_identifier pa
                    then Some (to_number ma, to_number mi, to_number pa) else None)))"

text \<open>\<open>semver.gt\<close>: major, then minor, then patch.\<close>

fun gt :: "semver \<Rightarrow> semver \<Rightarrow> bool" where
  "gt (a1, b1, c1) (a2, b2, c2) \<longleftrightarrow>
     a1 > a2 \<or> (a1 = a2 \<and> (b1 > b2 \<or> (b1 = b2 \<and> c1 > c2)))"

subsection \<open>Strings and paths\<close>

text \<open>\<open>String.prototype.includes\<close> (\<open>includes\<close> is reserved in Isabelle): the substring test.\<close>

fun str_includes :: "string \<Rightarrow> string \<Rightarrow> bool" where
  "str_includes [] d \<longleftrightarrow> d = []"
| "str_includes (c # cs) d \<longleftrightarrow> take (length d) (c # cs) = d \<or> str_includes cs d"

text \<open>
  \<open>String.prototype.split\<close> with a string separator: all the pieces between the
  occurrences of the separator, found from the left; with the empty separator, the
  characters; with the separator \<open>undefined\<close> (\<open>None\<close>), the whole string in one piece.
\<close>

fun split_on :: "string \<Rightarrow> string \<Rightarrow> string \<Rightarrow> string list" where
  "split_on d acc [] = [acc]"
| "split_on d acc (c # cs) =
     (if take (length d) (c # cs) = d
      then acc # split_on d [] (drop (length d - 1) cs)
      else split_on d (acc @ [c]) cs)"

definition split :: "string \<Rightarrow> string option \<Rightarrow> string list" where
  "split s sep =
     (case sep of
        None \<Rightarrow> [s]
      | Some d \<Rightarrow> if d = [] then map (\<lambda>c. [c]) s else split_on d [] s)"

text \<open>
  \<open>path.basename\<close> on a POSIX path that does not end in a slash (the paths glob returns
  for files), \<open>path.join\<close> of a directory in normal form with one more segment (the
  normalisation that \<open>path.join\<close> also performs is left out), and \<open>path.resolve\<close>
  against the working directory.
\<close>

definition basename :: "string \<Rightarrow> string" where
  "basename f = rev (takeWhile (\<lambda>c. c \<noteq> CHR ''/'') (rev f))"

definition path_join :: "string \<Rightarrow> string \<Rightarrow> string" where
  "path_join d n = d @ ''/'' @ n"

definition path_resolve :: "string \<Rightarrow> string \<Rightarrow> string" where
  "path_resolve wd f = (if f \<noteq> [] \<and> hd f = CHR ''/'' then f else wd @ ''/'' @ f)"

text \<open>
  \<open>name.replace(/\..*$/, '')\<close>: the name is cut at the leftmost dot after which no line
  break follows (\<open>.\<close> does not match a line break and \<open>$\<close> is the end of the string).
\<close>

definition line_break :: "char \<Rightarrow> bool" where
  "line_break c \<longleftrightarrow> c = CHR 0x0A \<or> c = CHR 0x0D"

fun strip_extension :: "string \<Rightarrow> string" where
  "strip_extension [] = []"
| "strip_extension (c # cs) =
     (if c = CHR ''.'' \<and> \<not> list_ex line_break cs then [] else c # strip_extension cs)"

subsection \<open>Data model\<close>

text \<open>
  A migration procedure receives the database handle and returns a promise. Here it is
  a total function on the application data \<open>'s\<close> of the database: it returns whether
  the promise was fulfilled (\<open>True\<close>) or rejected (\<open>False\<close>) and the data it left behind.
  Procedures are taken not to touch the migrations collection itself and to settle.
\<close>

type_synonym 's MigrationFN = "'s \<Rightarrow> bool \<times> 's"

record 's MigrationFile =
  version :: semver
  name :: string
  fn :: "'s MigrationFN"

datatype MigrationResultStatus = Successful | Failed

record MigrationResult =
  executed :: nat
  result_version :: semver
  status :: MigrationResultStatus

text \<open>
  A field of \<open>Options\<close> holds a value or \<open>undefined\<close> (\<open>None\<close>): \<open>Object.assign\<close> copies
  a property whose value is \<open>undefined\<close> like any other, and the command line passes
  \<open>undefined\<close> for every flag that was not given. A property of the argument of
  \<open>migrate\<close> is absent (\<open>None\<close>) or present with such a value.
\<close>

record Options =
  directory :: "string option"
  delimiter :: "string option"
  ignoreRemote :: "bool option"
  single :: "string list option"
  dryRun :: "bool option"

record OptionsArg =
  directory_arg :: "string option option"
  delimiter_arg :: "string option option"
  ignoreRemote_arg :: "bool option option"
  single_arg :: "string list option option"
  dryRun_arg :: "bool option option"

definition defaults :: Options where
  "defaults = \<lparr>directory = Some ''./migrations'', delimiter = Some ''__'',
     ignoreRemote = Some False, single = None, dryRun = Some False\<rparr>"

definition truthy :: "bool option \<Rightarrow> bool" where
  "truthy b = (case b of None \<Rightarrow> False | Some x \<Rightarrow> x)"

definition assign_property :: "'a \<Rightarrow> 'a option \<Rightarrow> 'a" where
  "assign_property old new = (case new of None \<Rightarrow> old | Some v \<Rightarrow> v)"

definition Object_assign :: "Options \<Rightarrow> OptionsArg \<Rightarrow> Options" where
  "Object_assign target source =
     \<lparr>directory = assign_property (directory target) (directory_arg source),
      delimiter = assign_property (delimiter target) (delimiter_arg source),
      ignoreRemote = assign_property (ignoreRemote target) (ignoreRemote_arg source),
      single = assign_property (single target) (single_arg source),
      dryRun = assign_property (dryRun target) (dryRun_arg source)\<rparr>"

datatype error =
    InvalidVersion string
  | DuplicateVersion semver
  | ImportError string
  | MissingProcedure string
  | TypeError
  | InvalidSelector string
  | UnknownVersion semver
  | MigrationExecutionFailure

text \<open>
  The constructors stand for the messages of the thrown \<open>Error\<close>s, in the order of the
  datatype: \<open>Invalid version: "..."\<close>, \<open>Cannot have multiple files for version: ...\<close>,
  a rejected \<open>import\<close>, \<open>No migrate function found in: ...\<close>, the \<open>TypeError\<close> of a
  method call on \<open>undefined\<close>, \<open>Invalid version specified: "...". Could not parse.\<close>,
  \<open>Version "..." specified in --only does not exist in as migration.\<close> and
  \<open>Skipping next migrations\<close>.
\<close>

subsection \<open>The file system and the module loader\<close>

text \<open>
  \<open>glob_sync\<close> is what \<open>glob.sync\<close> returns for a pattern, in the order of the
  enumeration; \<open>import_module\<close> is what \<open>import(f)\<close> gives for a resolved path: a
  rejection, a module whose export \<open>migration\<close> is not a function, or the function.
  The effects of a module's top-level code are not modelled.
\<close>

datatype 's imported = ImportFails | NoMigrationFunction | MigrationFunction "'s MigrationFN"

record 's fs =
  glob_sync :: "string \<Rightarrow> string list"
  cwd :: string
  import_module :: "string \<Rightarrow> 's imported"

subsection \<open>The remote store, the clock and the observable events\<close>

text \<open>
  \<open>getIdFromMigration\<close> is the SHA-256 digest of the version string. The digest is
  taken to be free of collisions, so the document of a migration is addressed by its
  version. \<open>coll\<close> is the migrations collection, \<open>db\<close> the application data.
  \<open>Timestamp.now()\<close> reads a logical clock that advances with every reading.
  Reads and writes of the store are taken to succeed. Every lookup, invocation, report
  of \<open>printMigration\<close> and write is appended to \<open>trace\<close>.
\<close>

datatype message = AlreadyRun | SkipDueToDryRun | Success | ErrorWhileRunning

datatype event =
    Get semver
  | Invoke semver
  | Print semver message
  | Set semver MigrationResult

record 's world =
  db :: 's
  coll :: "semver \<Rightarrow> MigrationResult option"
  clock :: nat
  trace :: "event list"

definition emit :: "event \<Rightarrow> 's world \<Rightarrow> 's world" where
  "emit e w = w\<lparr>trace := trace w @ [e]\<rparr>"

definition getIdFromMigration :: "'s MigrationFile \<Rightarrow> semver" where
  "getIdFromMigration migration = version migration"

definition doc_get :: "semver \<Rightarrow> 's world \<Rightarrow> MigrationResult option \<times> 's world" where
  "doc_get key w = (coll w key, emit (Get key) w)"

definition doc_set :: "semver \<Rightarrow> MigrationResult \<Rightarrow> 's world \<Rightarrow> 's world" where
  "doc_set key result w = emit (Set key result) (w\<lparr>coll := (coll w)(key \<mapsto> result)\<rparr>)"

definition Timestamp_now :: "'s world \<Rightarrow> nat \<times> 's world" where
  "Timestamp_now w = (clock w, w\<lparr>clock := Suc (clock w)\<rparr>)"

definition printMigration :: "'s MigrationFile \<Rightarrow> message \<Rightarrow> 's world \<Rightarrow> 's world" where
  "printMigration migration msg w = emit (Print (version migration) msg) w"

definition invoke :: "'s MigrationFile \<Rightarrow> 's world \<Rightarrow> bool \<times> 's world" where
  "invoke migration w =
     (case fn migration (db w) of
        (ok, db') \<Rightarrow> (ok, (emit (Invoke (version migration)) w)\<lparr>db := db'\<rparr>))"

subsection \<open>Discovery: \<open>sortMigrationFiles\<close> and \<open>gather\<close>\<close>

text \<open>
  \<open>Array.prototype.sort\<close> with a comparison function, as an insertion sort that moves
  an element to the right while the comparison with its neighbour is positive. Where
  the versions are pairwise distinct the comparison \<open>gt(a, b) ? 1 : -1\<close> is consistent
  and every conforming sort returns this list.
\<close>

fun insert_by :: "('a \<Rightarrow> 'a \<Rightarrow> int) \<Rightarrow> 'a \<Rightarrow> 'a list \<Rightarrow> 'a list" where
  "insert_by cmp x [] = [x]"
| "insert_by cmp x (y # ys) = (if cmp x y > 0 then y # insert_by cmp x ys else x # y # ys)"

definition sort_by :: "('a \<Rightarrow> 'a \<Rightarrow> int) \<Rightarrow> 'a list \<Rightarrow> 'a list" where
  "sort_by cmp xs = foldr (insert_by cmp) xs []"

definition sortMigrationFiles :: "'s MigrationFile list \<Rightarrow> 's MigrationFile list" where
  "sortMigrationFiles arr = sort_by (\<lambda>a b. if gt (version a) (version b) then 1 else - 1) arr"

text \<open>
  The callback of \<open>files.map\<close> is an async function: up to its first \<open>await\<close> it runs
  at once, so the version checks of all files run in the order of the list, each seeing
  the versions pushed by the files before it, and a throw there gives a promise that is
  already rejected. \<open>Promise.all\<close> rejects with the rejection it is told of first, which
  is that of the first such file in the list. \<open>parse_files\<close> is this first pass;
  \<open>raw_token\<close>, \<open>file_version\<close> and \<open>name_part\<close> are \<open>rawVersion\<close>, the coerced
  version and \<open>name\<close> of the destructured \<open>split\<close>.
\<close>

definition raw_token :: "string option \<Rightarrow> string \<Rightarrow> string" where
  "raw_token d f = (case split (basename f) d of [] \<Rightarrow> ''undefined'' | rawVersion # _ \<Rightarrow> rawVersion)"

definition file_version :: "string option \<Rightarrow> string \<Rightarrow> semver option" where
  "file_version d f = (case split (basename f) d of [] \<Rightarrow> None | rawVersion # _ \<Rightarrow> coerce rawVersion)"

definition name_part :: "string option \<Rightarrow> string \<Rightarrow> string option" where
  "name_part d f = (case split (basename f) d of _ # nm # _ \<Rightarrow> Some nm | _ \<Rightarrow> None)"

fun parse_files ::
  "string option \<Rightarrow> semver list \<Rightarrow> string list \<Rightarrow> error + (semver \<times> string option \<times> string) list" where
  "parse_files d versions [] = Inr []"
| "parse_files d versions (f # files) =
     (case file_version d f of
        None \<Rightarrow> Inl (InvalidVersion (raw_token d f))
      | Some v \<Rightarrow>
          if v \<in> set versions then Inl (DuplicateVersion v)
          else (case parse_files d (versions @ [v]) files of
                  Inl e \<Rightarrow> Inl e
                | Inr rest \<Rightarrow> Inr ((v, name_part d f, f) # rest)))"

text \<open>
  The rest of the callback runs after \<open>import(f)\<close> has settled. Which of several
  rejections of this second pass \<open>Promise.all\<close> sees first depends on the loader; the
  model takes the first in the order of the list.
\<close>

definition load_file :: "'s fs \<Rightarrow> semver \<times> string option \<times> string \<Rightarrow> error + 's MigrationFile" where
  "load_file fs p =
     (case p of (v, nm, f) \<Rightarrow>
        (case import_module fs f of
           ImportFails \<Rightarrow> Inl (ImportError f)
         | NoMigrationFunction \<Rightarrow> Inl (MissingProcedure f)
         | MigrationFunction migration \<Rightarrow>
             (case nm of
                None \<Rightarrow> Inl TypeError
              | Some n \<Rightarrow> Inr \<lparr>version = v, name = strip_extension n, fn = migration\<rparr>)))"

fun map_throwing :: "('a \<Rightarrow> error + 'b) \<Rightarrow> 'a list \<Rightarrow> error + 'b list" where
  "map_throwing f [] = Inr []"
| "map_throwing f (x # xs) =
     (case f x of
        Inl e \<Rightarrow> Inl e
      | Inr y \<Rightarrow> (case map_throwing f xs of Inl e \<Rightarrow> Inl e | Inr ys \<Rightarrow> Inr (y # ys)))"

definition delimiter_string :: "string option \<Rightarrow> string" where
  "delimiter_string d = (case d of None \<Rightarrow> ''undefined'' | Some s \<Rightarrow> s)"

definition files_of :: "Options \<Rightarrow> 's fs \<Rightarrow> string \<Rightarrow> string list" where
  "files_of options fs dir =
     map (path_resolve (cwd fs))
       (filter (\<lambda>f. str_includes f (delimiter_string (delimiter options)))
          (glob_sync fs (path_join dir ''*.js'')))"

definition gather :: "Options \<Rightarrow> 's fs \<Rightarrow> error + 's MigrationFile list" where
  "gather options fs =
     (case directory options of
        None \<Rightarrow> Inl TypeError
      | Some dir \<Rightarrow>
          (case parse_files (delimiter options) [] (files_of options fs dir) of
             Inl e \<Rightarrow> Inl e
           | Inr parsed \<Rightarrow>
               (case map_throwing (load_file fs) parsed of
                  Inl e \<Rightarrow> Inl e
                | Inr contents \<Rightarrow> Inr (sortMigrationFiles contents))))"

text \<open>
  In \<^verbatim>\<open>src/src/index.ts\<close> the list is sorted on the \<open>SemVer\<close> objects and then mapped to
  the version strings; on triples the mapping is the identity.
\<close>

definition gather_index :: "Options \<Rightarrow> 's fs \<Rightarrow> error + 's MigrationFile list" where
  "gather_index options fs =
     (case directory options of
        None \<Rightarrow> Inl TypeError
      | Some dir \<Rightarrow>
          (case parse_files (delimiter options) [] (files_of options fs dir) of
             Inl e \<Rightarrow> Inl e
           | Inr parsed \<Rightarrow>
               (case map_throwing (load_file fs) parsed of
                  Inl e \<Rightarrow> Inl e
                | Inr contents \<Rightarrow>
                    Inr (map (\<lambda>m. m)
                      (sort_by (\<lambda>a b. if gt (version a) (version b) then 1 else - 1) contents)))))"

subsection \<open>The loop: \<open>runMigrations\<close>\<close>

definition already_successful :: "MigrationResult option \<Rightarrow> bool" where
  "already_successful remote = (case remote of None \<Rightarrow> False | Some r \<Rightarrow> status r = Successful)"

definition record_result :: "'s MigrationFile \<Rightarrow> bool \<Rightarrow> 's world \<Rightarrow> 's world" where
  "record_result migration error w =
     (case Timestamp_now (printMigration migration (if error then ErrorWhileRunning else Success) w) of
        (now, w') \<Rightarrow>
          doc_set (getIdFromMigration migration)
            \<lparr>executed = now, result_version = version migration,
             status = (if error then Failed else Successful)\<rparr> w')"

text \<open>
  \<open>record_result\<close> is the \<open>finally\<close> block up to the write. In \<^verbatim>\<open>src/src/cli.ts\<close> the
  block then throws when \<open>error\<close> is set, which replaces the pending \<open>break\<close> of the
  \<open>catch\<close> block; the result of the loop is the thrown error or \<open>None\<close> for a normal
  return.
\<close>

fun runMigrations :: "'s MigrationFile list \<Rightarrow> Options \<Rightarrow> 's world \<Rightarrow> error option \<times> 's world" where
  "runMigrations [] options w = (None, w)"
| "runMigrations (migration # migrations) options w =
     (case doc_get (getIdFromMigration migration) w of
        (remote, w1) \<Rightarrow>
          if \<not> truthy (ignoreRemote options) \<and> already_successful remote then
            runMigrations migrations options (printMigration migration AlreadyRun w1)
          else if truthy (dryRun options) then
            (None, printMigration migration SkipDueToDryRun w1)
          else
            (case invoke migration w1 of
               (ok, w2) \<Rightarrow>
                 if \<not> ok then (Some MigrationExecutionFailure, record_result migration True w2)
                 else runMigrations migrations options (record_result migration False w2)))"

text \<open>
  In \<^verbatim>\<open>src/src/index.ts\<close> there is no dry run, and after a failure the \<open>finally\<close> block
  logs and leaves the loop with \<open>break\<close>: the function returns normally.
\<close>

fun runMigrations_index :: "'s MigrationFile list \<Rightarrow> Options \<Rightarrow> 's world \<Rightarrow> 's world" where
  "runMigrations_index [] options w = w"
| "runMigrations_index (migration # migrations) options w =
     (case doc_get (getIdFromMigration migration) w of
        (remote, w1) \<Rightarrow>
          if \<not> truthy (ignoreRemote options) \<and> already_successful remote then
            runMigrations_index migrations options (printMigration migration AlreadyRun w1)
          else
            (case invoke migration w1 of
               (ok, w2) \<Rightarrow>
                 if \<not> ok then record_result migration True w2
                 else runMigrations_index migrations options (record_result migration False w2)))"

subsection \<open>The entry point: \<open>migrate\<close>\<close>

text \<open>
  \<open>migrate\<close> takes the argument, the module-level object \<open>defaults\<close> as it is when the
  call starts, the file system and the world, and returns how the call ended, the
  object \<open>defaults\<close> as the call leaves it, and the world. \<open>Object.assign(defaults,
  options)\<close> writes into \<open>defaults\<close> and returns that same object. An argument that is
  \<open>undefined\<close> behaves as one without properties.
\<close>

datatype outcome = Returned | Exited nat error

definition select_version :: "string \<Rightarrow> error + semver" where
  "select_version v = (case coerce v of None \<Rightarrow> Inl (InvalidSelector v) | Some parsed \<Rightarrow> Inr parsed)"

definition select_migration :: "'s MigrationFile list \<Rightarrow> semver \<Rightarrow> error + 's MigrationFile" where
  "select_migration migrations v =
     (case find (\<lambda>m. version m = v) migrations of
        None \<Rightarrow> Inl (UnknownVersion v)
      | Some selected \<Rightarrow> Inr selected)"

definition select :: "OptionsArg \<Rightarrow> 's MigrationFile list \<Rightarrow> error + 's MigrationFile list" where
  "select options migrations =
     (case single_arg options of
        Some (Some tokens) \<Rightarrow>
          (case map_throwing select_version tokens of
             Inl e \<Rightarrow> Inl e
           | Inr singleVersions \<Rightarrow>
               (case map_throwing (select_migration migrations) singleVersions of
                  Inl e \<Rightarrow> Inl e
                | Inr filtered \<Rightarrow> Inr (sortMigrationFiles filtered)))
      | _ \<Rightarrow> Inr migrations)"

definition migrate ::
  "OptionsArg \<Rightarrow> Options \<Rightarrow> 's fs \<Rightarrow> 's world \<Rightarrow> outcome \<times> Options \<times> 's world" where
  "migrate options dflt fs w =
     (case gather (Object_assign dflt options) fs of
        Inl e \<Rightarrow> (Exited 1 e, Object_assign dflt options, w)
      | Inr found \<Rightarrow>
          (case select options found of
             Inl e \<Rightarrow> (Exited 1 e, Object_assign dflt options, w)
           | Inr migrations \<Rightarrow>
               (case runMigrations migrations (Object_assign dflt options) w of
                  (None, w') \<Rightarrow> (Returned, Object_assign dflt options, w')
                | (Some e, w') \<Rightarrow> (Exited 1 e, Object_assign dflt options, w'))))"

text \<open>
  In \<^verbatim>\<open>src/src/index.ts\<close> there is no selection and no handler: the promise of \<open>migrate\<close>
  is rejected with the error of \<open>gather\<close> (\<open>Some\<close>) or fulfilled (\<open>None\<close>).
\<close>

definition migrate_index ::
  "OptionsArg \<Rightarrow> Options \<Rightarrow> 's fs \<Rightarrow> 's world \<Rightarrow> error option \<times> Options \<times> 's world" where
  "migrate_index options dflt fs w =
     (case gather_index (Object_assign dflt options) fs of
        Inl e \<Rightarrow> (Some e, Object_assign dflt options, w)
      | Inr migrations \<Rightarrow>
          (None, Object_assign dflt options,
           runMigrations_index migrations (Object_assign dflt options) w))"

subsection \<open>What a run did\<close>

text \<open>
  The events a call appended to the trace, the versions whose procedure it invoked and
  the keys it wrote, each in the order of the run.
\<close>

definition new_events :: "'s world \<Rightarrow> 's world \<Rightarrow> event list" where
  "new_events w w' = drop (length (trace w)) (trace w')"

definition invoked :: "event list \<Rightarrow> semver list" where
  "invoked evs = concat (map (\<lambda>e. case e of Invoke v \<Rightarrow> [v] | _ \<Rightarrow> []) evs)"

definition written :: "event list \<Rightarrow> semver list" where
  "written evs = concat (map (\<lambda>e. case e of Set k r \<Rightarrow> [k] | _ \<Rightarrow> []) evs)"

text \<open>
  The report the specification asks of a dry run: a lookup and the note
  \<open>AlreadyRun\<close> for each migration that is skipped, then a lookup and the note
  \<open>SkipDueToDryRun\<close> for the first one that would run, and nothing after it.
\<close>

fun dry_run_report ::
  "Options \<Rightarrow> (semver \<Rightarrow> MigrationResult option) \<Rightarrow> 's MigrationFile list \<Rightarrow> event list" where
  "dry_run_report options store [] = []"
| "dry_run_report options store (m # ms) =
     (if \<not> truthy (ignoreRemote options) \<and> already_successful (store (version m))
      then [Get (version m), Print (version m) AlreadyRun] @ dry_run_report options store ms
      else [Get (version m), Print (version m) SkipDueToDryRun])"

text \<open>The record that \<open>runMigrations\<close> writes for a migration at clock reading \<open>t\<close>.\<close>

definition result_of :: "'s MigrationFile \<Rightarrow> nat \<Rightarrow> bool \<Rightarrow> MigrationResult" where
  "result_of m t ok =
     \<lparr>executed = t, result_version = version m, status = (if ok then Successful else Failed)\<rparr>"

subsection \<open>A concrete installation\<close>

text \<open>
  The application data is a counter. A file whose path contains \<open>fail\<close> exports a
  procedure that rejects, one whose path contains \<open>helper\<close> exports no procedure, any
  other file exports a procedure that increments the counter.
\<close>

definition ok_fn :: "nat MigrationFN" where
  "ok_fn s = (True, Suc s)"

definition failing_fn :: "nat MigrationFN" where
  "failing_fn s = (False, s)"

definition loader :: "string \<Rightarrow> nat imported" where
  "loader f =
     (if str_includes f ''fail'' then MigrationFunction failing_fn
      else if str_includes f ''helper'' then NoMigrationFunction
      else MigrationFunction ok_fn)"

definition installation :: "string \<Rightarrow> string list \<Rightarrow> nat fs" where
  "installation pattern files =
     \<lparr>glob_sync = (\<lambda>p. if p = pattern then files else []), cwd = ''/app'', import_module = loader\<rparr>"

definition w0 :: "nat world" where
  "w0 = \<lparr>db = 0, coll = Map.empty, clock = 100, trace = []\<rparr>"

definition done_1 :: MigrationResult where
  "done_1 = \<lparr>executed = 7, result_version = (1, 0, 0), status = Successful\<rparr>"

definition w1_done :: "nat world" where
  "w1_done = \<lparr>db = 1, coll = [(1, 0, 0) \<mapsto> done_1], clock = 100, trace = []\<rparr>"

definition no_options :: OptionsArg where
  "no_options = \<lparr>directory_arg = None, delimiter_arg = None, ignoreRemote_arg = None,
     single_arg = None, dryRun_arg = None\<rparr>"

definition m1 :: "nat MigrationFile" where
  "m1 = \<lparr>version = (1, 0, 0), name = ''a'', fn = ok_fn\<rparr>"

definition m2 :: "nat MigrationFile" where
  "m2 = \<lparr>version = (2, 0, 0), name = ''b'', fn = ok_fn\<rparr>"

definition m2_fail :: "nat MigrationFile" where
  "m2_fail = \<lparr>version = (2, 0, 0), name = ''fail'', fn = failing_fn\<rparr>"

definition m3 :: "nat MigrationFile" where
  "m3 = \<lparr>version = (3, 0, 0), name = ''c'', fn = ok_fn\<rparr>"

definition pattern0 :: string where
  "pattern0 = ''./migrations/*.js''"

definition two_files :: "string list" where
  "two_files = [''./migrations/2__b.js'', ''./migrations/1__a.js'']"

definition three_files :: "string list" where
  "three_files = [''./migrations/3__c.js'', ''./migrations/1__a.js'', ''./migrations/2__fail.js'']"

definition one_file :: "string list" where
  "one_file = [''./migrations/1__a.js'']"

definition duplicate_files :: "string list" where
  "duplicate_files = [''./migrations/1__b.js'', ''./migrations/1.0.0__c.js'']"

definition invalid_and_duplicate_files :: "string list" where
  "invalid_and_duplicate_files =
     [''./migrations/__a.js'', ''./migrations/1__b.js'', ''./migrations/1.0.0__c.js'']"

definition only_1 :: OptionsArg where
  "only_1 = no_options\<lparr>single_arg := Some (Some [''1''])\<rparr>"

definition only_2_1 :: OptionsArg where
  "only_2_1 = no_options\<lparr>single_arg := Some (Some [''2.0.0'', ''1.0.0''])\<rparr>"

definition only_unknown :: OptionsArg where
  "only_unknown = no_options\<lparr>single_arg := Some (Some [''9.9.9''])\<rparr>"

definition only_unknown_and_invalid :: OptionsArg where
  "only_unknown_and_invalid = no_options\<lparr>single_arg := Some (Some [''9.9.9'', ''abc''])\<rparr>"

definition dry :: OptionsArg where
  "dry = no_options\<lparr>dryRun_arg := Some (Some True)\<rparr>"

definition forced :: OptionsArg where
  "forced = no_options\<lparr>ignoreRemote_arg := Some (Some True)\<rparr>"

definition forced_dry :: OptionsArg where
  "forced_dry = no_options\<lparr>ignoreRemote_arg := Some (Some True), dryRun_arg := Some (Some True)\<rparr>"

definition forced_twice :: OptionsArg where
  "forced_twice = no_options\<lparr>ignoreRemote_arg := Some (Some True),
     single_arg := Some (Some [''1'', ''1.0.0''])\<rparr>"

definition three_ok_files :: "string list" where
  "three_ok_files = [''./migrations/3__c.js'', ''./migrations/1__a.js'', ''./migrations/2__b.js'']"

definition only_1_invalid :: OptionsArg where
  "only_1_invalid = no_options\<lparr>single_arg := Some (Some [''1'', ''abc''])\<rparr>"

definition in_a__b :: OptionsArg where
  "in_a__b = no_options\<lparr>directory_arg := Some (Some ''a__b'')\<rparr>"

definition in_migrations :: OptionsArg where
  "in_migrations = no_options\<lparr>directory_arg := Some (Some ''migrations'')\<rparr>"

definition helper_listing :: "string list" where
  "helper_listing = [''a__b/helper.js'', ''a__b/1__init.js'']"

definition plain_listing :: "string list" where
  "plain_listing = [''migrations/helper.js'', ''migrations/1__init.js'']"

subsection \<open>Auxiliary notions for the proofs\<close>

text \<open>
  What the first pass of \<open>gather\<close> yields for a file whose version coerces, and the
  descriptor the second pass builds from it.
\<close>

definition parsed_of :: "string option \<Rightarrow> string \<Rightarrow> semver \<times> string option \<times> string" where
  "parsed_of d f = (the (file_version d f), name_part d f, f)"

definition loaded :: "'s fs \<Rightarrow> string option \<Rightarrow> string \<Rightarrow> 's MigrationFile" where
  "loaded fs d f = projr (load_file fs (parsed_of d f))"

text \<open>
  The three ways one turn of the loop of \<open>runMigrations\<close> leaves the world: the
  migration is skipped, the dry run stops at it, or its procedure is run and the
  result written. \<open>run_events\<close> is what a whole call appends to the trace.
\<close>

definition skips :: "Options \<Rightarrow> 's world \<Rightarrow> 's MigrationFile \<Rightarrow> bool" where
  "skips options w m \<longleftrightarrow> \<not> truthy (ignoreRemote options) \<and> already_successful (coll w (version m))"

definition after_skip :: "'s MigrationFile \<Rightarrow> 's world \<Rightarrow> 's world" where
  "after_skip m w = w\<lparr>trace := trace w @ [Get (version m), Print (version m) AlreadyRun]\<rparr>"

definition after_dry :: "'s MigrationFile \<Rightarrow> 's world \<Rightarrow> 's world" where
  "after_dry m w = w\<lparr>trace := trace w @ [Get (version m), Print (version m) SkipDueToDryRun]\<rparr>"

definition run_report :: "'s MigrationFile \<Rightarrow> 's world \<Rightarrow> event list" where
  "run_report m w =
     [Get (version m), Invoke (version m),
      Print (version m) (if fst (fn m (db w)) then Success else ErrorWhileRunning),
      Set (version m) (result_of m (clock w) (fst (fn m (db w))))]"

definition after_run :: "'s MigrationFile \<Rightarrow> 's world \<Rightarrow> 's world" where
  "after_run m w =
     w\<lparr>db := snd (fn m (db w)),
       coll := (coll w)(version m \<mapsto> result_of m (clock w) (fst (fn m (db w)))),
       clock := Suc (clock w),
       trace := trace w @ run_report m w\<rparr>"

definition run_events :: "'s MigrationFile list \<Rightarrow> Options \<Rightarrow> 's world \<Rightarrow> event list" where
  "run_events ms options w = new_events w (snd (runMigrations ms options w))"

text \<open>The tokens of the selector of a call, none when the call has no selector.\<close>

definition selected_tokens :: "OptionsArg \<Rightarrow> string list" where
  "selected_tokens oa = (case single_arg oa of Some (Some tokens) \<Rightarrow> tokens | _ \<Rightarrow> [])"

text \<open>The descriptor that \<open>migrate\<close> selects for a token of the selector.\<close>

definition chosen :: "'s MigrationFile list \<Rightarrow> string \<Rightarrow> 's MigrationFile" where
  "chosen found t = projr (select_migration found (projr (select_version t)))"

text \<open>
  The argument that passes again, wherever the later of two calls omits a property,
  what the earlier call passed for it. The selector is that of the later call:
  \<open>migrate\<close> reads it from its argument and not from the merged options.
\<close>

definition later_property :: "'a option \<Rightarrow> 'a option \<Rightarrow> 'a option" where
  "later_property earlier later = (case later of None \<Rightarrow> earlier | Some x \<Rightarrow> Some x)"

definition overlay :: "OptionsArg \<Rightarrow> OptionsArg \<Rightarrow> OptionsArg" where
  "overlay earlier later =
     \<lparr>directory_arg = later_property (directory_arg earlier) (directory_arg later),
      delimiter_arg = later_property (delimiter_arg earlier) (delimiter_arg later),
      ignoreRemote_arg = later_property (ignoreRemote_arg earlier) (ignoreRemote_arg later),
      single_arg = single_arg later,
      dryRun_arg = later_property (dryRun_arg earlier) (dryRun_arg later)\<rparr>"

lemmas string_defs = coerce_def dot_component_def is_digit_def numeric_identifier_def to_number_def
  digit_value_def MAX_SAFE_INTEGER_def split_def basename_def path_join_def path_resolve_def
  line_break_def raw_token_def file_version_def name_part_def delimiter_string_def

lemmas engine_defs = gather_def gather_index_def files_of_def load_file_def sortMigrationFiles_def
  sort_by_def migrate_def migrate_index_def select_def select_version_def select_migration_def
  Object_assign_def assign_property_def truthy_def already_successful_def record_result_def
  doc_get_def doc_set_def Timestamp_now_def printMigration_def invoke_def emit_def
  getIdFromMigration_def defaults_def new_events_def invoked_def written_def result_of_def

lemmas loop_defs = Object_assign_def assign_property_def truthy_def already_successful_def
  new_events_def invoked_def written_def result_of_def defaults_def

lemmas step_defs = skips_def after_skip_def after_dry_def
  after_run_def run_report_def

lemmas world_defs = ok_fn_def failing_fn_def loader_def installation_def w0_def done_1_def
  w1_done_def no_options_def m1_def m2_def m2_fail_def m3_def

lemmas example_defs = world_defs pattern0_def two_files_def
  three_files_def one_file_def duplicate_files_def invalid_and_duplicate_files_def only_1_def
  only_2_1_def only_unknown_def only_unknown_and_invalid_def dry_def forced_def forced_dry_def
  forced_twice_def in_a__b_def in_migrations_def

section \<open>Ordering\<close>

lemma gt_iff_less: "gt a b \<longleftrightarrow> b < a"
  by (cases a; cases b) (auto simp: less_prod_def)

lemma insert_by_insort:
  "insert_by (\<lambda>a b. if gt (version a) (version b) then 1 else - 1) x xs = insort_key version x xs"
  by (induction xs) (auto simp: gt_iff_less)

lemma sortMigrationFiles_sort_key: "sortMigrationFiles arr = sort_key version arr"
  by (induction arr) (simp_all add: sortMigrationFiles_def sort_by_def insert_by_insort)

lemma mset_sortMigrationFiles: "mset (sortMigrationFiles arr) = mset arr"
  by (simp add: sortMigrationFiles_sort_key)

lemma set_sortMigrationFiles: "set (sortMigrationFiles arr) = set arr"
  by (simp add: sortMigrationFiles_sort_key)

lemma sorted_sortMigrationFiles: "sorted (map version (sortMigrationFiles arr))"
  by (simp add: sortMigrationFiles_sort_key)

lemma distinct_sortMigrationFiles:
  "distinct (map version (sortMigrationFiles arr)) = distinct (map version arr)"
proof -
  have "mset (map version (sortMigrationFiles arr)) = mset (map version arr)"
    by (simp add: mset_sortMigrationFiles)
  then show ?thesis by (rule mset_eq_imp_distinct_iff)
qed

lemma strictly_ascending:
  "sorted (map version ms) \<Longrightarrow> distinct (map version ms) \<Longrightarrow>
   sorted_wrt (\<lambda>a b. gt (version b) (version a)) ms"
  by (induction ms) (auto simp: gt_iff_less less_le)

section \<open>The loop\<close>

lemma runMigrations_Cons:
  "runMigrations (m # ms) options w =
     (if skips options w m then runMigrations ms options (after_skip m w)
      else if truthy (dryRun options) then (None, after_dry m w)
      else if fst (fn m (db w)) then runMigrations ms options (after_run m w)
      else (Some MigrationExecutionFailure, after_run m w))"
  by (cases w) (auto simp: skips_def after_skip_def after_dry_def after_run_def run_report_def doc_get_def
      printMigration_def emit_def invoke_def record_result_def Timestamp_now_def doc_set_def
      getIdFromMigration_def result_of_def split: prod.splits)

lemma runMigrations_index_Cons:
  "runMigrations_index (m # ms) options w =
     (if skips options w m then runMigrations_index ms options (after_skip m w)
      else if fst (fn m (db w)) then runMigrations_index ms options (after_run m w)
      else after_run m w)"
  by (cases w) (auto simp: skips_def after_skip_def after_run_def run_report_def doc_get_def
      printMigration_def emit_def invoke_def record_result_def Timestamp_now_def doc_set_def
      getIdFromMigration_def result_of_def split: prod.splits)

declare runMigrations.simps(2) [simp del] runMigrations_index.simps(2) [simp del]

lemma runMigrations_index_eq:
  "\<not> truthy (dryRun options) \<Longrightarrow> runMigrations_index ms options w = snd (runMigrations ms options w)"
  by (induction ms arbitrary: w) (simp_all add: runMigrations_Cons runMigrations_index_Cons)

lemma trace_runMigrations: "\<exists>evs. trace (snd (runMigrations ms options w)) = trace w @ evs"
proof (induction ms arbitrary: w)
  case Nil
  show ?case by simp
next
  case (Cons m ms)
  from Cons.IH [of "after_skip m w"] Cons.IH [of "after_run m w"] show ?case
    by (auto simp: runMigrations_Cons after_skip_def after_dry_def after_run_def)
qed

lemma trace_run_events: "trace (snd (runMigrations ms options w)) = trace w @ run_events ms options w"
  using trace_runMigrations [of ms options w] by (auto simp: run_events_def new_events_def)

lemma run_events_Nil [simp]: "run_events [] options w = []"
  by (simp add: run_events_def new_events_def)

lemma run_events_Cons:
  "run_events (m # ms) options w =
     (if skips options w m
      then [Get (version m), Print (version m) AlreadyRun] @ run_events ms options (after_skip m w)
      else if truthy (dryRun options) then [Get (version m), Print (version m) SkipDueToDryRun]
      else if fst (fn m (db w)) then run_report m w @ run_events ms options (after_run m w)
      else run_report m w)"
proof -
  have "new_events w (snd (runMigrations ms options (after_skip m w)))
      = [Get (version m), Print (version m) AlreadyRun] @ run_events ms options (after_skip m w)"
    by (simp add: new_events_def trace_run_events after_skip_def)
  moreover have "new_events w (snd (runMigrations ms options (after_run m w)))
      = run_report m w @ run_events ms options (after_run m w)"
    by (simp add: new_events_def trace_run_events after_run_def)
  ultimately show ?thesis
    by (simp add: run_events_def [of "m # ms"] runMigrations_Cons)
       (simp add: new_events_def after_dry_def after_run_def)
qed

lemma runMigrations_append:
  "\<not> truthy (dryRun options) \<Longrightarrow>
   runMigrations (pre @ rest) options w =
     (case runMigrations pre options w of
        (None, w1) \<Rightarrow> runMigrations rest options w1
      | (Some e, w1) \<Rightarrow> (Some e, w1))"
  by (induction pre arbitrary: w) (simp_all add: runMigrations_Cons)

lemma coll_after_skip [simp]: "coll (after_skip m w) = coll w"
  by (simp add: after_skip_def)

lemma clock_runMigrations: "clock w \<le> clock (snd (runMigrations ms options w))"
proof (induction ms arbitrary: w)
  case Nil
  show ?case by simp
next
  case (Cons m ms)
  from Cons.IH [of "after_skip m w"] Cons.IH [of "after_run m w"] show ?case
    by (auto simp: runMigrations_Cons after_skip_def after_dry_def after_run_def)
qed

lemma coll_frame:
  "v \<notin> version ` set ms \<Longrightarrow> coll (snd (runMigrations ms options w)) v = coll w v"
proof (induction ms arbitrary: w)
  case Nil
  show ?case by simp
next
  case (Cons m ms)
  from Cons.prems Cons.IH [of "after_skip m w"] Cons.IH [of "after_run m w"] show ?case
    by (auto simp: runMigrations_Cons after_dry_def after_run_def)
qed

lemma invoked_append [simp]: "invoked (xs @ ys) = invoked xs @ invoked ys"
  by (simp add: invoked_def)

lemma written_append [simp]: "written (xs @ ys) = written xs @ written ys"
  by (simp add: written_def)

lemma invoked_simps [simp]:
  "invoked [] = []" "invoked (Invoke v # evs) = v # invoked evs" "invoked (Get v # evs) = invoked evs"
  "invoked (Print v msg # evs) = invoked evs" "invoked (Set v r # evs) = invoked evs"
  by (simp_all add: invoked_def)

lemma written_simps [simp]:
  "written [] = []" "written (Set v r # evs) = v # written evs" "written (Get v # evs) = written evs"
  "written (Print v msg # evs) = written evs" "written (Invoke v # evs) = written evs"
  by (simp_all add: written_def)

lemma invoked_run_report [simp]: "invoked (run_report m w) = [version m]"
  by (simp add: run_report_def)

lemma written_run_report [simp]: "written (run_report m w) = [version m]"
  by (simp add: run_report_def)

lemma skip_preserved:
  assumes "\<not> truthy (ignoreRemote options)" and "coll w v = Some r" and "status r = Successful"
  shows "coll (snd (runMigrations ms options w)) v = Some r \<and>
         v \<notin> set (invoked (run_events ms options w)) \<and>
         v \<notin> set (written (run_events ms options w))"
  using assms(2)
proof (induction ms arbitrary: w)
  case Nil
  then show ?case by simp
next
  case (Cons m ms)
  show ?case
  proof (cases "version m = v")
    case True
    with Cons.prems assms have "skips options w m"
      by (simp add: skips_def already_successful_def)
    with Cons.IH [of "after_skip m w"] Cons.prems show ?thesis
      by (simp add: runMigrations_Cons run_events_Cons)
  next
    case False
    with Cons.IH [of "after_skip m w"] Cons.IH [of "after_run m w"] Cons.prems show ?thesis
      by (auto simp: runMigrations_Cons run_events_Cons after_dry_def after_run_def)
  qed
qed

lemma dry_run:
  "truthy (dryRun options) \<Longrightarrow>
   runMigrations ms options w = (None, w\<lparr>trace := trace w @ dry_run_report options (coll w) ms\<rparr>)"
  by (induction ms arbitrary: w)
     (simp_all add: runMigrations_Cons skips_def after_skip_def after_dry_def)

lemma invoked_subset: "set (invoked (run_events ms options w)) \<subseteq> version ` set ms"
proof (induction ms arbitrary: w)
  case Nil
  show ?case by simp
next
  case (Cons m ms)
  from Cons.IH [of "after_skip m w"] Cons.IH [of "after_run m w"] show ?case
    by (auto simp: run_events_Cons)
qed



lemma invoked_sorted:
  "sorted (map version ms) \<Longrightarrow> sorted (invoked (run_events ms options w))"
proof (induction ms arbitrary: w)
  case Nil
  show ?case by simp
next
  case (Cons m ms)
  from Cons.prems have s: "sorted (map version ms)" and le: "\<forall>x\<in>set ms. version m \<le> version x"
    by simp_all
  have "\<forall>y\<in>set (invoked (run_events ms options w')). version m \<le> y" for w'
    using invoked_subset [of ms options w'] le by auto
  with Cons.IH [OF s] show ?case
    by (auto simp: run_events_Cons)
qed

lemmas run_defs = runMigrations_Cons runMigrations_index_Cons step_defs

section \<open>Discovery\<close>

lemma parse_files_Inr_D:
  "parse_files d vs files = Inr parsed \<Longrightarrow>
     (\<forall>f\<in>set files. file_version d f \<noteq> None) \<and>
     distinct (map (\<lambda>f. the (file_version d f)) files) \<and>
     set vs \<inter> set (map (\<lambda>f. the (file_version d f)) files) = {} \<and>
     parsed = map (parsed_of d) files"
proof (induction files arbitrary: vs parsed)
  case Nil
  then show ?case by auto
next
  case (Cons f files)
  from Cons.prems obtain v rest where v: "file_version d f = Some v" "v \<notin> set vs"
    and rest: "parse_files d (vs @ [v]) files = Inr rest" and parsed: "parsed = (v, name_part d f, f) # rest"
    by (auto split: option.splits if_splits sum.splits)
  from Cons.IH [OF rest] v parsed show ?case
    by (auto simp: parsed_of_def simp del: not_None_eq)
qed

lemma parse_files_Inr_I:
  "\<forall>f\<in>set files. file_version d f \<noteq> None \<Longrightarrow>
   distinct (map (\<lambda>f. the (file_version d f)) files) \<Longrightarrow>
   set vs \<inter> set (map (\<lambda>f. the (file_version d f)) files) = {} \<Longrightarrow>
   parse_files d vs files = Inr (map (parsed_of d) files)"
proof (induction files arbitrary: vs)
  case Nil
  then show ?case by simp
next
  case (Cons f files)
  from Cons.prems obtain v where v: "file_version d f = Some v" by auto
  with Cons.prems have "v \<notin> set vs" by auto
  moreover have "parse_files d (vs @ [v]) files = Inr (map (parsed_of d) files)"
    using Cons.prems v by (intro Cons.IH) auto
  ultimately show ?case using v by (simp add: parsed_of_def)
qed



lemma map_throwing_Inr_D:
  "map_throwing f xs = Inr ys \<Longrightarrow> (\<forall>x\<in>set xs. \<exists>y. f x = Inr y) \<and> ys = map (\<lambda>x. projr (f x)) xs"
  by (induction xs arbitrary: ys) (auto split: sum.splits)

lemma map_throwing_Inr_I:
  "\<forall>x\<in>set xs. \<exists>y. f x = Inr y \<Longrightarrow> map_throwing f xs = Inr (map (\<lambda>x. projr (f x)) xs)"
  by (induction xs) (auto split: sum.splits)

lemma version_load_file: "load_file fs (v, n, f) = Inr m \<Longrightarrow> version m = v"
  by (auto simp: load_file_def split: imported.splits option.splits)

lemma gather_Inr_D:
  assumes "gather options fs = Inr ms"
  obtains dir where "directory options = Some dir"
    and "\<forall>f\<in>set (files_of options fs dir). file_version (delimiter options) f \<noteq> None"
    and "distinct (map (\<lambda>f. the (file_version (delimiter options) f)) (files_of options fs dir))"
    and "\<forall>f\<in>set (files_of options fs dir). \<exists>m. load_file fs (parsed_of (delimiter options) f) = Inr m"
    and "ms = sortMigrationFiles (map (loaded fs (delimiter options)) (files_of options fs dir))"
proof -
  from assms obtain dir parsed contents where dir: "directory options = Some dir"
    and p: "parse_files (delimiter options) [] (files_of options fs dir) = Inr parsed"
    and l: "map_throwing (load_file fs) parsed = Inr contents"
    and ms: "ms = sortMigrationFiles contents"
    by (auto simp: gather_def split: option.splits sum.splits)
  from parse_files_Inr_D [OF p] map_throwing_Inr_D [OF l] dir ms that [of dir] show thesis
    by (simp add: loaded_def [abs_def] o_def del: not_None_eq)
qed

lemma gather_Inr_I:
  assumes "directory options = Some dir"
    and "\<forall>f\<in>set (files_of options fs dir). file_version (delimiter options) f \<noteq> None"
    and "distinct (map (\<lambda>f. the (file_version (delimiter options) f)) (files_of options fs dir))"
    and "\<forall>f\<in>set (files_of options fs dir). \<exists>m. load_file fs (parsed_of (delimiter options) f) = Inr m"
  shows "gather options fs = Inr (sortMigrationFiles (map (loaded fs (delimiter options)) (files_of options fs dir)))"
proof -
  have p: "parse_files (delimiter options) [] (files_of options fs dir)
      = Inr (map (parsed_of (delimiter options)) (files_of options fs dir))"
    using assms(2,3) by (intro parse_files_Inr_I) auto
  have l: "map_throwing (load_file fs) (map (parsed_of (delimiter options)) (files_of options fs dir))
      = Inr (map (\<lambda>x. projr (load_file fs x)) (map (parsed_of (delimiter options)) (files_of options fs dir)))"
    using assms(4) by (intro map_throwing_Inr_I) auto
  show ?thesis
    by (simp add: gather_def assms(1) p l loaded_def [abs_def] o_def)
qed

lemma versions_loaded:
  "\<forall>f\<in>set xs. \<exists>m. load_file fs (parsed_of d f) = Inr m \<Longrightarrow>
   map version (map (loaded fs d) xs) = map (\<lambda>f. the (file_version d f)) xs"
  by (induction xs) (auto simp: loaded_def parsed_of_def dest: version_load_file)

lemma gather_index_eq: "gather_index options fs = gather options fs"
  by (simp add: gather_index_def gather_def sortMigrationFiles_def split: option.splits sum.splits)

lemma gather_versions:
  assumes "gather options fs = Inr ms"
  shows "distinct (map version ms)" and "sorted (map version ms)"
proof -
  from assms obtain dir where dir: "directory options = Some dir"
    and dist: "distinct (map (\<lambda>f. the (file_version (delimiter options) f)) (files_of options fs dir))"
    and ld: "\<forall>f\<in>set (files_of options fs dir). \<exists>m. load_file fs (parsed_of (delimiter options) f) = Inr m"
    and ms: "ms = sortMigrationFiles (map (loaded fs (delimiter options)) (files_of options fs dir))"
    by (rule gather_Inr_D)
  from dist show "distinct (map version ms)"
    unfolding ms distinct_sortMigrationFiles versions_loaded [OF ld] .
  show "sorted (map version ms)" unfolding ms by (rule sorted_sortMigrationFiles)
qed

lemma gather_permuted:
  assumes ok: "gather options fs = Inr ms"
    and perm: "\<And>p. mset (glob_sync fs' p) = mset (glob_sync fs p)"
    and same: "cwd fs' = cwd fs" "import_module fs' = import_module fs"
  shows "gather options fs' = Inr ms"
proof -
  let ?d = "delimiter options"
  from ok obtain dir where dir: "directory options = Some dir"
    and co: "\<forall>f\<in>set (files_of options fs dir). file_version ?d f \<noteq> None"
    and dist: "distinct (map (\<lambda>f. the (file_version ?d f)) (files_of options fs dir))"
    and ld: "\<forall>f\<in>set (files_of options fs dir). \<exists>m. load_file fs (parsed_of ?d f) = Inr m"
    and ms: "ms = sortMigrationFiles (map (loaded fs ?d) (files_of options fs dir))"
    by (rule gather_Inr_D)
  let ?xs = "files_of options fs dir" and ?ys = "files_of options fs' dir"
  have m: "mset ?ys = mset ?xs"
    by (simp add: files_of_def perm same)
  then have s: "set ?ys = set ?xs" by (rule mset_eq_setD)
  have lf: "load_file fs' = load_file fs"
    by (rule ext) (simp add: load_file_def same)
  then have ldd: "loaded fs' = loaded fs" by (intro ext) (simp add: loaded_def)
  have ld': "\<forall>f\<in>set ?ys. \<exists>m. load_file fs (parsed_of ?d f) = Inr m"
    using ld s by simp
  have "mset (map (\<lambda>f. the (file_version ?d f)) ?ys) = mset (map (\<lambda>f. the (file_version ?d f)) ?xs)"
    using m by simp
  then have dist': "distinct (map (\<lambda>f. the (file_version ?d f)) ?ys)"
    using dist mset_eq_imp_distinct_iff by blast
  then have "distinct (map version (map (loaded fs ?d) ?ys))"
    unfolding versions_loaded [OF ld'] .
  then have inj: "inj_on version (set (map (loaded fs ?d) ?ys))"
    by (simp only: distinct_map)
  have "mset (map (loaded fs ?d) ?ys) = mset (map (loaded fs ?d) ?xs)"
    using m by simp
  then have "sort_key version (map (loaded fs ?d) ?ys) = sort_key version (map (loaded fs ?d) ?xs)"
    using inj by (intro sort_key_inj_key_eq) simp_all
  moreover have "gather options fs' = Inr (sortMigrationFiles (map (loaded fs' ?d) ?ys))"
    using dir co s dist' ld' by (intro gather_Inr_I) (simp_all add: lf)
  ultimately show ?thesis
    by (simp add: ms ldd sortMigrationFiles_sort_key)
qed

text \<open>
  Claim C3. Whenever discovery returns a list, the list is strictly ascending in the
  order of \<open>semver.gt\<close> (every later descriptor is greater than every earlier one), and
  discovery on a file system that enumerates the same files in another order returns
  the same list. Both snapshots of \<open>gather\<close> return that list.
\<close>

theorem discovery_strictly_ascending:
  assumes "gather options fs = Inr ms"
    and "\<forall>p. mset (glob_sync fs' p) = mset (glob_sync fs p)"
    and "cwd fs' = cwd fs" and "import_module fs' = import_module fs"
  shows "sorted_wrt (\<lambda>a b. gt (version b) (version a)) ms \<and>
         gather options fs' = Inr ms \<and>
         gather_index options fs = Inr ms \<and> gather_index options fs' = Inr ms"
proof -
  have "sorted_wrt (\<lambda>a b. gt (version b) (version a)) ms"
    using gather_versions [OF assms(1)] by (intro strictly_ascending)
  moreover have "gather options fs' = Inr ms"
    using assms by (intro gather_permuted [of options fs ms fs']) simp_all
  ultimately show ?thesis
    using assms(1) by (simp add: gather_index_eq)
qed

theorem discovery_strictly_ascending_witness:
  "gather defaults (installation pattern0 two_files) = Inr [m1, m2] \<and>
   sorted_wrt (\<lambda>a b. gt (version b) (version a)) [m1, m2] \<and>
   gather defaults (installation pattern0 (rev two_files)) = Inr [m1, m2] \<and>
   gather_index defaults (installation pattern0 (rev two_files)) = Inr [m1, m2]"
proof -
  have h1: "gather defaults (installation pattern0 two_files) = Inr [m1, m2]"
    by (simp add: string_defs engine_defs example_defs)
  have h2: "\<forall>p. mset (glob_sync (installation pattern0 (rev two_files)) p)
      = mset (glob_sync (installation pattern0 two_files) p)"
    by (simp add: installation_def)
  have h3: "cwd (installation pattern0 (rev two_files)) = cwd (installation pattern0 two_files)"
    by (simp add: installation_def)
  have h4: "import_module (installation pattern0 (rev two_files))
      = import_module (installation pattern0 two_files)"
    by (simp add: installation_def)
  from discovery_strictly_ascending [OF h1 h2 h3 h4] h1 show ?thesis by simp
qed

section \<open>The entry point\<close>

lemma new_events_same [simp]: "new_events w w = []"
  by (simp add: new_events_def)

lemma migrate_cases:
  obtains (discovery) e where "gather (Object_assign dflt oa) fs = Inl e"
      and "migrate oa dflt fs w = (Exited 1 e, Object_assign dflt oa, w)"
    | (selection) found e where "gather (Object_assign dflt oa) fs = Inr found"
      and "select oa found = Inl e"
      and "migrate oa dflt fs w = (Exited 1 e, Object_assign dflt oa, w)"
    | (run) found ms where "gather (Object_assign dflt oa) fs = Inr found"
      and "select oa found = Inr ms"
      and "migrate oa dflt fs w =
            (case fst (runMigrations ms (Object_assign dflt oa) w) of None \<Rightarrow> Returned | Some e \<Rightarrow> Exited 1 e,
             Object_assign dflt oa, snd (runMigrations ms (Object_assign dflt oa) w))"
proof (cases "gather (Object_assign dflt oa) fs")
  case (Inl e)
  then show ?thesis by (intro discovery [of e]) (simp_all add: migrate_def)
next
  case (Inr found)
  show ?thesis
  proof (cases "select oa found")
    case (Inl e)
    with Inr show ?thesis by (intro selection [of found e]) (simp_all add: migrate_def)
  next
    case ms: (Inr ms)
    with Inr show ?thesis
      by (intro run [of found ms]) (simp_all add: migrate_def split: prod.splits option.splits)
  qed
qed

lemma dry_run_report_silent:
  "invoked (dry_run_report options store ms) = [] \<and> written (dry_run_report options store ms) = []"
  by (induction ms) simp_all

lemma dry_run_report_stops:
  "list_all (skips options w) pre \<Longrightarrow> \<not> skips options w m \<Longrightarrow>
   dry_run_report options (coll w) (pre @ m # rest) =
     concat (map (\<lambda>m. [Get (version m), Print (version m) AlreadyRun]) pre) @
     [Get (version m), Print (version m) SkipDueToDryRun]"
  by (induction pre) (simp_all add: skips_def)

section \<open>Skipping and dry runs\<close>

text \<open>
  Claim C2. Let the remote record of a version be successful and \<open>ignoreRemote\<close> be
  false or undefined in the merged options. Then in \<open>runMigrations\<close> on any list, and
  in \<open>migrate\<close> with any argument (with or without a selector), the procedure of that
  version is not invoked, nothing is written under its key, and the record is the same
  after the call.
\<close>

theorem already_successful_never_rerun:
  assumes "\<not> truthy (ignoreRemote (Object_assign dflt oa))"
    and "coll w v = Some r" and "status r = Successful"
  shows "(coll (snd (runMigrations ms (Object_assign dflt oa) w)) v = Some r \<and>
          v \<notin> set (invoked (run_events ms (Object_assign dflt oa) w)) \<and>
          v \<notin> set (written (run_events ms (Object_assign dflt oa) w))) \<and>
         (coll (snd (snd (migrate oa dflt fs w))) v = Some r \<and>
          v \<notin> set (invoked (new_events w (snd (snd (migrate oa dflt fs w))))) \<and>
          v \<notin> set (written (new_events w (snd (snd (migrate oa dflt fs w))))))"
proof
  show "coll (snd (runMigrations ms (Object_assign dflt oa) w)) v = Some r \<and>
        v \<notin> set (invoked (run_events ms (Object_assign dflt oa) w)) \<and>
        v \<notin> set (written (run_events ms (Object_assign dflt oa) w))"
    using assms by (rule skip_preserved)
  show "coll (snd (snd (migrate oa dflt fs w))) v = Some r \<and>
        v \<notin> set (invoked (new_events w (snd (snd (migrate oa dflt fs w))))) \<and>
        v \<notin> set (written (new_events w (snd (snd (migrate oa dflt fs w)))))"
  proof (cases rule: migrate_cases [of dflt oa fs w])
    case (discovery e)
    with assms(2) show ?thesis by simp
  next
    case (selection found e)
    with assms(2) show ?thesis by simp
  next
    case (run found sel)
    with skip_preserved [OF assms, of sel] show ?thesis
      by (simp add: run_events_def)
  qed
qed

theorem already_successful_never_rerun_witness:
  "\<not> truthy (ignoreRemote (Object_assign defaults only_1)) \<and>
   coll w1_done (1, 0, 0) = Some done_1 \<and> status done_1 = Successful \<and>
   coll (snd (snd (migrate only_1 defaults (installation pattern0 two_files) w1_done))) (1, 0, 0) = Some done_1 \<and>
   (1, 0, 0) \<notin> set (invoked (new_events w1_done
       (snd (snd (migrate only_1 defaults (installation pattern0 two_files) w1_done))))) \<and>
   new_events w1_done (snd (snd (migrate only_1 defaults (installation pattern0 two_files) w1_done)))
     = [Get (1, 0, 0), Print (1, 0, 0) AlreadyRun]"
proof -
  have h1: "\<not> truthy (ignoreRemote (Object_assign defaults only_1))"
    by (simp add: engine_defs example_defs)
  have h2: "coll w1_done (1, 0, 0) = Some done_1"
    by (simp add: w1_done_def)
  have h3: "status done_1 = Successful"
    by (simp add: done_1_def)
  have h4: "new_events w1_done (snd (snd (migrate only_1 defaults (installation pattern0 two_files) w1_done)))
     = [Get (1, 0, 0), Print (1, 0, 0) AlreadyRun]"
    by (simp add: string_defs engine_defs example_defs runMigrations_Cons skips_def after_skip_def)
  from already_successful_never_rerun [OF h1 h2 h3, of "[]" "installation pattern0 two_files"] h1 h2 h3 h4
  show ?thesis by simp
qed

text \<open>
  Claim C4. With \<open>dryRun\<close> true, \<open>runMigrations\<close> returns normally, changes nothing
  but the trace, and the trace gains exactly the dry-run report: a lookup and the note
  \<open>AlreadyRun\<close> for every skipped migration, then a lookup and the note
  \<open>SkipDueToDryRun\<close> for the first migration that would run, and nothing for the
  migrations after that one. No procedure is invoked and no record is written, in
  \<open>runMigrations\<close> and in \<open>migrate\<close>.
\<close>

theorem dry_run_stops_at_first_pending:
  assumes "truthy (dryRun (Object_assign dflt oa))"
  shows "runMigrations ms (Object_assign dflt oa) w =
           (None, w\<lparr>trace := trace w @ dry_run_report (Object_assign dflt oa) (coll w) ms\<rparr>) \<and>
         invoked (dry_run_report (Object_assign dflt oa) (coll w) ms) = [] \<and>
         written (dry_run_report (Object_assign dflt oa) (coll w) ms) = [] \<and>
         (list_all (skips (Object_assign dflt oa) w) pre \<and> \<not> skips (Object_assign dflt oa) w m \<longrightarrow>
            dry_run_report (Object_assign dflt oa) (coll w) (pre @ m # rest) =
              concat (map (\<lambda>m. [Get (version m), Print (version m) AlreadyRun]) pre) @
              [Get (version m), Print (version m) SkipDueToDryRun]) \<and>
         (coll (snd (snd (migrate oa dflt fs w))) = coll w \<and>
          db (snd (snd (migrate oa dflt fs w))) = db w \<and>
          invoked (new_events w (snd (snd (migrate oa dflt fs w)))) = [] \<and>
          written (new_events w (snd (snd (migrate oa dflt fs w)))) = [])"
proof -
  note run = dry_run [OF assms]
  have "coll (snd (snd (migrate oa dflt fs w))) = coll w \<and>
        db (snd (snd (migrate oa dflt fs w))) = db w \<and>
        invoked (new_events w (snd (snd (migrate oa dflt fs w)))) = [] \<and>
        written (new_events w (snd (snd (migrate oa dflt fs w)))) = []"
  proof (cases rule: migrate_cases [of dflt oa fs w])
    case (discovery e)
    then show ?thesis by simp
  next
    case (selection found e)
    then show ?thesis by simp
  next
    case (run found sel)
    then show ?thesis
      by (simp add: dry_run [OF assms] new_events_def dry_run_report_silent)
  qed
  with run show ?thesis
    by (simp add: dry_run_report_silent dry_run_report_stops)
qed

theorem dry_run_stops_at_first_pending_witness:
  "truthy (dryRun (Object_assign defaults dry)) \<and>
   runMigrations [m1, m2, m3] (Object_assign defaults dry) w1_done =
     (None, w1_done\<lparr>trace := [Get (1, 0, 0), Print (1, 0, 0) AlreadyRun,
                               Get (2, 0, 0), Print (2, 0, 0) SkipDueToDryRun]\<rparr>) \<and>
   list_all (skips (Object_assign defaults dry) w1_done) [m1] \<and>
   \<not> skips (Object_assign defaults dry) w1_done m2 \<and>
   invoked (new_events w1_done
     (snd (snd (migrate dry defaults (installation pattern0 two_files) w1_done)))) = []"
proof -
  have h: "truthy (dryRun (Object_assign defaults dry))"
    by (simp add: engine_defs example_defs)
  have s: "list_all (skips (Object_assign defaults dry) w1_done) [m1] \<and>
      \<not> skips (Object_assign defaults dry) w1_done m2"
    by (simp add: skips_def engine_defs example_defs)
  from dry_run_stops_at_first_pending [OF h, of "[m1, m2, m3]" w1_done "[m1]" m2 "[m3]"
      "installation pattern0 two_files"] h s
  show ?thesis by (simp add: engine_defs world_defs)
qed

section \<open>Failure of a procedure\<close>

text \<open>
  Claim C1, as amended. Let the run not be a dry run, let the migrations before \<open>m\<close>
  complete without error, leaving the world \<open>w1\<close>, and let \<open>m\<close> not be skipped and its
  procedure reject. Then both snapshots of \<open>runMigrations\<close> write a record with status
  \<open>failed\<close> under the key of \<open>m\<close>, change no other key of the store, and append nothing
  to the trace after the write, whatever migrations follow \<open>m\<close>. In the snapshot of
  \<^verbatim>\<open>src/src/cli.ts\<close> the loop throws and \<open>migrate\<close> ends the process with exit code 1;
  in the snapshot of \<^verbatim>\<open>src/src/index.ts\<close> the loop returns and the promise of \<open>migrate\<close>
  is fulfilled.
\<close>

theorem failure_halts_the_run:
  assumes "\<not> truthy (dryRun options)"
    and "runMigrations pre options w = (None, w1)"
    and "\<not> skips options w1 m"
    and "\<not> fst (fn m (db w1))"
  shows "runMigrations (pre @ m # post) options w = (Some MigrationExecutionFailure, after_run m w1) \<and>
         runMigrations_index (pre @ m # post) options w = after_run m w1 \<and>
         coll (after_run m w1) =
           (coll w1)(version m \<mapsto>
              \<lparr>executed = clock w1, result_version = version m, status = Failed\<rparr>) \<and>
         trace (after_run m w1) =
           trace w1 @ [Get (version m), Invoke (version m), Print (version m) ErrorWhileRunning,
             Set (version m) \<lparr>executed = clock w1, result_version = version m, status = Failed\<rparr>] \<and>
         (options = Object_assign dflt oa \<and> gather options fs = Inr found \<and>
          select oa found = Inr (pre @ m # post) \<longrightarrow>
            migrate oa dflt fs w = (Exited 1 MigrationExecutionFailure, options, after_run m w1)) \<and>
         (options = Object_assign dflt oa \<and> gather_index options fs = Inr (pre @ m # post) \<longrightarrow>
            migrate_index oa dflt fs w = (None, options, after_run m w1))"
proof -
  have run: "runMigrations (pre @ m # post) options w = (Some MigrationExecutionFailure, after_run m w1)"
    using assms by (simp add: runMigrations_append runMigrations_Cons)
  then have idx: "runMigrations_index (pre @ m # post) options w = after_run m w1"
    using assms(1) by (simp add: runMigrations_index_eq)
  have "coll (after_run m w1) =
      (coll w1)(version m \<mapsto> \<lparr>executed = clock w1, result_version = version m, status = Failed\<rparr>)"
    using assms(4) by (simp add: after_run_def result_of_def)
  moreover have "trace (after_run m w1) =
      trace w1 @ [Get (version m), Invoke (version m), Print (version m) ErrorWhileRunning,
        Set (version m) \<lparr>executed = clock w1, result_version = version m, status = Failed\<rparr>]"
    using assms(4) by (simp add: after_run_def run_report_def result_of_def)
  ultimately show ?thesis
    using run idx by (auto simp: migrate_def migrate_index_def)
qed

theorem failure_halts_the_run_witness:
  "\<not> truthy (dryRun (Object_assign defaults no_options)) \<and>
   runMigrations [m1] (Object_assign defaults no_options) w0 = (None, after_run m1 w0) \<and>
   \<not> skips (Object_assign defaults no_options) (after_run m1 w0) m2_fail \<and>
   \<not> fst (fn m2_fail (db (after_run m1 w0))) \<and>
   gather (Object_assign defaults no_options) (installation pattern0 three_files) = Inr [m1, m2_fail, m3] \<and>
   select no_options [m1, m2_fail, m3] = Inr [m1, m2_fail, m3] \<and>
   migrate no_options defaults (installation pattern0 three_files) w0 =
     (Exited 1 MigrationExecutionFailure, Object_assign defaults no_options,
      after_run m2_fail (after_run m1 w0)) \<and>
   migrate_index no_options defaults (installation pattern0 three_files) w0 =
     (None, Object_assign defaults no_options, after_run m2_fail (after_run m1 w0)) \<and>
   map_option status (coll (after_run m2_fail (after_run m1 w0)) (1, 0, 0)) = Some Successful \<and>
   map_option status (coll (after_run m2_fail (after_run m1 w0)) (2, 0, 0)) = Some Failed \<and>
   coll (after_run m2_fail (after_run m1 w0)) (3, 0, 0) = None \<and>
   invoked (trace (after_run m2_fail (after_run m1 w0))) = [(1, 0, 0), (2, 0, 0)]"
proof -
  let ?o = "Object_assign defaults no_options"
  have h1: "\<not> truthy (dryRun ?o)"
    by (simp add: engine_defs world_defs)
  have h2: "runMigrations [m1] ?o w0 = (None, after_run m1 w0)"
    by (simp add: engine_defs world_defs run_defs)
  have h3: "\<not> skips ?o (after_run m1 w0) m2_fail"
    by (simp add: engine_defs world_defs run_defs)
  have h4: "\<not> fst (fn m2_fail (db (after_run m1 w0)))"
    by (simp add: engine_defs world_defs run_defs)
  have g: "gather ?o (installation pattern0 three_files) = Inr [m1, m2_fail, m3]"
    by (simp add: string_defs engine_defs world_defs pattern0_def three_files_def)
  have gi: "gather_index ?o (installation pattern0 three_files) = Inr [m1, m2_fail, m3]"
    by (simp add: gather_index_eq g)
  have s: "select no_options [m1, m2_fail, m3] = Inr [m1, m2_fail, m3]"
    by (simp add: select_def no_options_def)
  have r: "map_option status (coll (after_run m2_fail (after_run m1 w0)) (1, 0, 0)) = Some Successful \<and>
     map_option status (coll (after_run m2_fail (after_run m1 w0)) (2, 0, 0)) = Some Failed \<and>
     coll (after_run m2_fail (after_run m1 w0)) (3, 0, 0) = None \<and>
     invoked (trace (after_run m2_fail (after_run m1 w0))) = [(1, 0, 0), (2, 0, 0)]"
    by (simp add: engine_defs world_defs run_defs)
  from failure_halts_the_run [OF h1 h2 h3 h4, of "[m3]" defaults no_options
      "installation pattern0 three_files" "[m1, m2_fail, m3]"] g gi s
  have "migrate no_options defaults (installation pattern0 three_files) w0 =
      (Exited 1 MigrationExecutionFailure, ?o, after_run m2_fail (after_run m1 w0)) \<and>
    migrate_index no_options defaults (installation pattern0 three_files) w0 =
      (None, ?o, after_run m2_fail (after_run m1 w0))"
    by simp
  with h1 h2 h3 h4 g s r show ?thesis by blast
qed

text \<open>
  Claim C1 as stated fails on \<^verbatim>\<open>src/src/index.ts\<close>: the procedure of the second of three
  migrations rejects, and the promise of \<open>migrate\<close> is fulfilled all the same.
\<close>

theorem failure_not_surfaced_counterexample:
  "gather_index (Object_assign defaults no_options) (installation pattern0 three_files)
     = Inr [m1, m2_fail, m3] \<and>
   \<not> fst (fn m2_fail (db (after_run m1 w0))) \<and>
   fst (migrate_index no_options defaults (installation pattern0 three_files) w0) = None \<and>
   invoked (trace (snd (snd (migrate_index no_options defaults (installation pattern0 three_files) w0))))
     = [(1, 0, 0), (2, 0, 0)]"
proof -
  have g: "gather_index (Object_assign defaults no_options) (installation pattern0 three_files)
      = Inr [m1, m2_fail, m3]"
    by (simp add: string_defs engine_defs world_defs pattern0_def three_files_def)
  show ?thesis
    unfolding g migrate_index_def
    by (simp add: engine_defs world_defs run_defs)
qed

section \<open>Forced reruns\<close>

text \<open>
  Claim C7, as amended. Let \<open>ignoreRemote\<close> be true, the run not be a dry run, the
  migrations before \<open>m\<close> complete without error, leaving the world \<open>w1\<close>, and the record
  of \<open>m\<close> be successful. Then the loop invokes the procedure of \<open>m\<close> once and replaces
  the record under its key by one that carries the reading of the clock at the write
  (not before the reading at the start of the run) and the status of this execution;
  the store has the same keys as before, and when no later migration of the run has
  the version of \<open>m\<close> the record is still there at the end of the run.
\<close>

theorem forced_rerun_overwrites:
  assumes "truthy (ignoreRemote options)" and "\<not> truthy (dryRun options)"
    and "runMigrations pre options w = (None, w1)"
    and "coll w1 (version m) = Some r" and "status r = Successful"
  shows "runMigrations (pre @ [m]) options w =
           (if fst (fn m (db w1)) then None else Some MigrationExecutionFailure, after_run m w1) \<and>
         invoked (new_events w1 (after_run m w1)) = [version m] \<and>
         coll (after_run m w1) =
           (coll w1)(version m \<mapsto>
              \<lparr>executed = clock w1, result_version = version m,
               status = (if fst (fn m (db w1)) then Successful else Failed)\<rparr>) \<and>
         dom (coll (after_run m w1)) = dom (coll w1) \<and>
         clock w \<le> clock w1 \<and>
         (version m \<notin> version ` set post \<longrightarrow>
            coll (snd (runMigrations (pre @ m # post) options w)) (version m) =
              Some \<lparr>executed = clock w1, result_version = version m,
                    status = (if fst (fn m (db w1)) then Successful else Failed)\<rparr>)"
proof -
  have ns: "\<not> skips options w1 m"
    using assms(1) by (simp add: skips_def)
  have run: "runMigrations (pre @ [m]) options w =
      (if fst (fn m (db w1)) then None else Some MigrationExecutionFailure, after_run m w1)"
    using assms(2,3) ns by (simp add: runMigrations_append runMigrations_Cons)
  have ev: "invoked (new_events w1 (after_run m w1)) = [version m]"
    by (simp add: new_events_def after_run_def)
  have c: "coll (after_run m w1) =
      (coll w1)(version m \<mapsto> \<lparr>executed = clock w1, result_version = version m,
         status = (if fst (fn m (db w1)) then Successful else Failed)\<rparr>)"
    by (simp add: after_run_def result_of_def)
  have d: "dom (coll (after_run m w1)) = dom (coll w1)"
    using assms(4) by (auto simp: c)
  have t: "clock w \<le> clock w1"
    using clock_runMigrations [of w pre options] assms(3) by simp
  have "coll (snd (runMigrations (pre @ m # post) options w)) (version m) =
      Some \<lparr>executed = clock w1, result_version = version m,
            status = (if fst (fn m (db w1)) then Successful else Failed)\<rparr>"
    if "version m \<notin> version ` set post"
    using assms(2,3) ns that coll_frame [of "version m" post options "after_run m w1"]
    by (simp add: runMigrations_append runMigrations_Cons c)
  with run ev c d t show ?thesis by blast
qed

theorem forced_rerun_overwrites_witness:
  "truthy (ignoreRemote (Object_assign defaults forced)) \<and>
   \<not> truthy (dryRun (Object_assign defaults forced)) \<and>
   runMigrations [] (Object_assign defaults forced) w1_done = (None, w1_done) \<and>
   coll w1_done (version m1) = Some done_1 \<and> status done_1 = Successful \<and>
   version m1 \<notin> version ` set [m2] \<and>
   runMigrations [m1] (Object_assign defaults forced) w1_done = (None, after_run m1 w1_done) \<and>
   coll (snd (runMigrations [m1, m2] (Object_assign defaults forced) w1_done)) (1, 0, 0) =
     Some \<lparr>executed = 100, result_version = (1, 0, 0), status = Successful\<rparr>"
proof -
  let ?o = "Object_assign defaults forced"
  have h1: "truthy (ignoreRemote ?o)" and h2: "\<not> truthy (dryRun ?o)"
    by (simp_all add: engine_defs world_defs forced_def)
  have h3: "runMigrations [] ?o w1_done = (None, w1_done)"
    by simp
  have h4: "coll w1_done (version m1) = Some done_1" and h5: "status done_1 = Successful"
    by (simp_all add: world_defs)
  have h6: "version m1 \<notin> version ` set [m2]"
    by (simp add: world_defs)
  from forced_rerun_overwrites [OF h1 h2 h3 h4 h5, of "[m2]"] h1 h2 h3 h4 h5 h6
  show ?thesis by (simp add: world_defs)
qed

text \<open>
  Claim C7 as stated fails when the forced run is also a dry run: the procedure is not
  invoked and the record stays as it was.
\<close>

theorem forced_dry_run_counterexample:
  "truthy (ignoreRemote (Object_assign defaults forced_dry)) \<and>
   gather (Object_assign defaults forced_dry) (installation pattern0 one_file) = Inr [m1] \<and>
   coll w1_done (version m1) = Some done_1 \<and> status done_1 = Successful \<and>
   migrate forced_dry defaults (installation pattern0 one_file) w1_done =
     (Returned, Object_assign defaults forced_dry,
      w1_done\<lparr>trace := [Get (1, 0, 0), Print (1, 0, 0) SkipDueToDryRun]\<rparr>)"
proof -
  have g: "gather (Object_assign defaults forced_dry) (installation pattern0 one_file) = Inr [m1]"
    by (simp add: string_defs engine_defs world_defs pattern0_def one_file_def forced_dry_def)
  show ?thesis
    unfolding g migrate_def
    by (simp add: g engine_defs world_defs run_defs forced_dry_def)
qed

section \<open>Selection\<close>

lemma find_Some_set: "find P xs = Some x \<Longrightarrow> P x \<and> x \<in> set xs"
  by (induction xs) (auto split: if_splits)

lemma select_version_Inr: "select_version t = Inr v \<longleftrightarrow> coerce t = Some v"
  by (simp add: select_version_def split: option.splits)

lemma select_migration_Inr:
  "select_migration found v = Inr m \<Longrightarrow> version m = v \<and> m \<in> set found"
  by (auto simp: select_migration_def split: option.splits dest: find_Some_set)

lemma select_migration_Inl:
  "select_migration found v = Inl e \<longleftrightarrow> v \<notin> version ` set found \<and> e = UnknownVersion v"
  by (auto simp: select_migration_def find_None_iff split: option.splits dest: find_Some_set)

lemma select_unselected:
  "single_arg oa = None \<or> single_arg oa = Some None \<Longrightarrow> select oa found = Inr found"
  by (auto simp: select_def)

lemma select_Inr_D:
  assumes "single_arg oa = Some (Some tokens)" and "select oa found = Inr ms"
  shows "\<forall>t\<in>set tokens. \<exists>v. select_version t = Inr v \<and> (\<exists>m. select_migration found v = Inr m)"
    and "ms = sortMigrationFiles (map (chosen found) tokens)"
proof -
  from assms obtain vs filtered where vs: "map_throwing select_version tokens = Inr vs"
    and f: "map_throwing (select_migration found) vs = Inr filtered"
    and ms: "ms = sortMigrationFiles filtered"
    by (auto simp: select_def split: sum.splits)
  from map_throwing_Inr_D [OF vs] map_throwing_Inr_D [OF f]
  show "\<forall>t\<in>set tokens. \<exists>v. select_version t = Inr v \<and> (\<exists>m. select_migration found v = Inr m)"
    by fastforce
  from map_throwing_Inr_D [OF vs] map_throwing_Inr_D [OF f] ms
  show "ms = sortMigrationFiles (map (chosen found) tokens)"
    by (simp add: chosen_def [abs_def] o_def)
qed

lemma select_Inr_I:
  assumes "single_arg oa = Some (Some tokens)"
    and "\<forall>t\<in>set tokens. \<exists>v. select_version t = Inr v \<and> (\<exists>m. select_migration found v = Inr m)"
  shows "select oa found = Inr (sortMigrationFiles (map (chosen found) tokens))"
proof -
  have vs: "map_throwing select_version tokens = Inr (map (\<lambda>t. projr (select_version t)) tokens)"
    using assms(2) by (intro map_throwing_Inr_I) auto
  have "map_throwing (select_migration found) (map (\<lambda>t. projr (select_version t)) tokens)
      = Inr (map (\<lambda>v. projr (select_migration found v)) (map (\<lambda>t. projr (select_version t)) tokens))"
    using assms(2) by (intro map_throwing_Inr_I) auto
  with vs show ?thesis
    by (simp add: select_def assms(1) chosen_def [abs_def] o_def)
qed

lemma version_chosen:
  "select_version t = Inr v \<Longrightarrow> select_migration found v = Inr m \<Longrightarrow> version (chosen found t) = v"
  by (simp add: chosen_def select_migration_Inr)

lemma versions_chosen:
  "\<forall>t\<in>set tokens. \<exists>v. select_version t = Inr v \<and> (\<exists>m. select_migration found v = Inr m) \<Longrightarrow>
   map (\<lambda>t. Some (version (chosen found t))) tokens = map coerce tokens"
  by (induction tokens) (auto simp: version_chosen select_version_Inr)

lemma select_sorted:
  assumes "sorted (map version found)" and "select oa found = Inr ms"
  shows "sorted (map version ms)"
proof (cases "single_arg oa")
  case None
  with assms show ?thesis by (simp add: select_unselected)
next
  case (Some x)
  show ?thesis
  proof (cases x)
    case None
    with Some assms show ?thesis by (simp add: select_unselected)
  next
    case tokens: (Some tokens)
    from select_Inr_D(2) [OF _ assms(2), of tokens] Some tokens show ?thesis
      by (simp add: sorted_sortMigrationFiles)
  qed
qed





lemma select_versions:
  assumes "single_arg oa = Some (Some tokens)" and "select oa found = Inr ms"
  shows "mset (map (\<lambda>m. Some (version m)) ms) = mset (map coerce tokens)" and "set ms \<subseteq> set found"
proof -
  note d = select_Inr_D [OF assms]
  have "mset (map (\<lambda>m. Some (version m)) ms)
      = mset (map (\<lambda>m. Some (version m)) (map (chosen found) tokens))"
    unfolding d(2) using mset_sortMigrationFiles [of "map (chosen found) tokens"]
    by (metis mset_map)
  also have "map (\<lambda>m. Some (version m)) (map (chosen found) tokens) = map coerce tokens"
    using versions_chosen [OF d(1)] by (simp add: o_def)
  finally show "mset (map (\<lambda>m. Some (version m)) ms) = mset (map coerce tokens)" .
  have "chosen found t \<in> set found" if "t \<in> set tokens" for t
  proof -
    from d(1) that obtain u m where "select_version t = Inr u" "select_migration found u = Inr m"
      by blast
    then show ?thesis
      using select_migration_Inr [of found u m] by (simp add: chosen_def)
  qed
  then show "set ms \<subseteq> set found"
    unfolding d(2) by (auto simp: set_sortMigrationFiles)
qed





lemma ascending_iff_sorted: "sorted_wrt (\<lambda>a b. \<not> gt a b) xs \<longleftrightarrow> sorted xs"
  by (induction xs) (auto simp: gt_iff_less not_less)

lemma select_permuted:
  assumes "single_arg oa = Some (Some tokens)" and "single_arg oa' = Some (Some tokens')"
    and "mset tokens' = mset tokens" and "select oa found = Inr ms"
  shows "select oa' found = Inr ms"
proof -
  note d = select_Inr_D [OF assms(1,4)]
  from assms(3) have s: "set tokens' = set tokens" by (rule mset_eq_setD)
  have ok: "\<forall>t\<in>set tokens'. \<exists>v. select_version t = Inr v \<and> (\<exists>m. select_migration found v = Inr m)"
    using d(1) s by simp
  have "inj_on version (set (map (chosen found) tokens'))"
  proof (rule inj_onI)
    fix a b
    assume "a \<in> set (map (chosen found) tokens')" and "b \<in> set (map (chosen found) tokens')"
      and eq: "version a = version b"
    then obtain t u where t: "t \<in> set tokens'" "a = chosen found t"
      and u: "u \<in> set tokens'" "b = chosen found u" by auto
    from ok t obtain v m where v: "select_version t = Inr v" "select_migration found v = Inr m" by blast
    from ok u obtain v' m' where v': "select_version u = Inr v'" "select_migration found v' = Inr m'" by blast
    from eq t u v v' have "v = v'" by (simp add: version_chosen)
    with t u v v' show "a = b" by (simp add: chosen_def)
  qed
  moreover have "mset (map (chosen found) tokens') = mset (map (chosen found) tokens)"
    using assms(3) by simp
  ultimately have "sort_key version (map (chosen found) tokens') = sort_key version (map (chosen found) tokens)"
    by (intro sort_key_inj_key_eq) simp_all
  with select_Inr_I [OF assms(2) ok] d(2) show ?thesis
    by (simp add: sortMigrationFiles_sort_key)
qed

lemma select_migration_found:
  "v \<in> version ` set found \<Longrightarrow> \<exists>m. select_migration found v = Inr m"
  using select_migration_Inl [of found v] by (cases "select_migration found v") auto

lemma first_invalid:
  "find (\<lambda>t. coerce t = None) tokens = Some t \<Longrightarrow>
   map_throwing select_version tokens = Inl (InvalidSelector t)"
  by (induction tokens) (auto simp: select_version_def split: if_splits option.splits)

lemma all_valid:
  "find (\<lambda>t. coerce t = None) tokens = None \<Longrightarrow>
   map_throwing select_version tokens = Inr (map (\<lambda>t. the (coerce t)) tokens)"
  by (induction tokens) (auto simp: select_version_def split: if_splits option.splits)

lemma first_unknown:
  "find (\<lambda>t. the (coerce t) \<notin> version ` set found) tokens = Some t \<Longrightarrow>
   map_throwing (select_migration found) (map (\<lambda>t. the (coerce t)) tokens)
     = Inl (UnknownVersion (the (coerce t)))"
proof (induction tokens)
  case Nil
  then show ?case by simp
next
  case (Cons u tokens)
  show ?case
  proof (cases "the (coerce u) \<in> version ` set found")
    case True
    from select_migration_found [OF this] obtain m
      where "select_migration found (the (coerce u)) = Inr m" ..
    with True Cons show ?thesis by simp
  next
    case False
    with Cons.prems have "t = u" by simp
    moreover from False have "select_migration found (the (coerce u)) = Inl (UnknownVersion (the (coerce u)))"
      by (simp add: select_migration_Inl)
    ultimately show ?thesis by simp
  qed
qed

text \<open>
  Claim C8, as amended. The procedures a call of \<open>migrate\<close> invokes are invoked in
  ascending order of version (no invoked version is greater than one invoked after it),
  and with a selector only versions that tokens of the selector coerce to are invoked.
  A selection is sorted ascending, consists of discovered descriptors and has, token
  for token, the versions the tokens coerce to; listing the same tokens in another
  order gives the same selection. When discovery fails the call ends with the error of
  discovery. When discovery succeeds and some token cannot be coerced, the call ends
  with the invalid-selector error for the first such token; when every token coerces
  and some token coerces to a version no descriptor has, the call ends with
  \<open>UnknownVersion\<close> for the first such token. In all three cases the world is left as
  it was found.
\<close>

theorem selection_runs_in_version_order:
  "sorted_wrt (\<lambda>a b. \<not> gt a b) (invoked (new_events w (snd (snd (migrate oa dflt fs w))))) \<and>
   (single_arg oa = Some (Some tokens) \<longrightarrow>
      set (map Some (invoked (new_events w (snd (snd (migrate oa dflt fs w))))))
        \<subseteq> set (map coerce tokens)) \<and>
   (gather (Object_assign dflt oa) fs = Inr found \<and> select oa found = Inr ms \<longrightarrow>
      sorted_wrt (\<lambda>a b. \<not> gt (version a) (version b)) ms) \<and>
   (single_arg oa = Some (Some tokens) \<and> select oa found = Inr ms \<longrightarrow>
      mset (map (\<lambda>m. Some (version m)) ms) = mset (map coerce tokens) \<and> set ms \<subseteq> set found) \<and>
   (single_arg oa = Some (Some tokens) \<and> single_arg oa' = Some (Some tokens') \<and>
    mset tokens' = mset tokens \<and> select oa found = Inr ms \<longrightarrow> select oa' found = Inr ms) \<and>
   (gather (Object_assign dflt oa) fs = Inl e \<longrightarrow>
      migrate oa dflt fs w = (Exited 1 e, Object_assign dflt oa, w)) \<and>
   (gather (Object_assign dflt oa) fs = Inr found \<and> single_arg oa = Some (Some tokens) \<and>
    find (\<lambda>t. coerce t = None) tokens = Some t \<longrightarrow>
      migrate oa dflt fs w = (Exited 1 (InvalidSelector t), Object_assign dflt oa, w)) \<and>
   (gather (Object_assign dflt oa) fs = Inr found \<and> single_arg oa = Some (Some tokens) \<and>
    find (\<lambda>t. coerce t = None) tokens = None \<and>
    find (\<lambda>t. the (coerce t) \<notin> version ` set found) tokens = Some t \<longrightarrow>
      migrate oa dflt fs w =
        (Exited 1 (UnknownVersion (the (coerce t))), Object_assign dflt oa, w))"
proof (intro conjI impI)
  show "sorted_wrt (\<lambda>a b. \<not> gt a b) (invoked (new_events w (snd (snd (migrate oa dflt fs w)))))"
  proof (cases rule: migrate_cases [of dflt oa fs w])
    case (discovery e)
    then show ?thesis by simp
  next
    case (selection found e)
    then show ?thesis by simp
  next
    case (run found sel)
    from run(1) have "sorted (map version found)" by (rule gather_versions)
    then have "sorted (map version sel)" using run(2) by (rule select_sorted)
    then have "sorted (invoked (run_events sel (Object_assign dflt oa) w))" by (rule invoked_sorted)
    with run(3) show ?thesis by (simp add: ascending_iff_sorted run_events_def)
  qed
next
  assume sa: "single_arg oa = Some (Some tokens)"
  show "set (map Some (invoked (new_events w (snd (snd (migrate oa dflt fs w))))))
      \<subseteq> set (map coerce tokens)"
  proof (cases rule: migrate_cases [of dflt oa fs w])
    case (discovery e)
    then show ?thesis by simp
  next
    case (selection found e)
    then show ?thesis by simp
  next
    case (run found sel)
    have "set (map (\<lambda>m. Some (version m)) sel) = set (map coerce tokens)"
      using select_versions(1) [OF sa run(2)] by (rule mset_eq_setD)
    with invoked_subset [of sel "Object_assign dflt oa" w] run(3) show ?thesis
      by (auto simp: run_events_def)
  qed
next
  assume "gather (Object_assign dflt oa) fs = Inr found \<and> select oa found = Inr ms"
  then have "sorted (map version ms)"
    using gather_versions(2) select_sorted by blast
  then show "sorted_wrt (\<lambda>a b. \<not> gt (version a) (version b)) ms"
    using ascending_iff_sorted [of "map version ms"] by (simp add: sorted_wrt_map)
next
  assume a: "single_arg oa = Some (Some tokens) \<and> select oa found = Inr ms"
  then show "mset (map (\<lambda>m. Some (version m)) ms) = mset (map coerce tokens)"
    using select_versions(1) by blast
  from a show "set ms \<subseteq> set found"
    using select_versions(2) by blast
next
  assume "single_arg oa = Some (Some tokens) \<and> single_arg oa' = Some (Some tokens') \<and>
    mset tokens' = mset tokens \<and> select oa found = Inr ms"
  then show "select oa' found = Inr ms"
    using select_permuted by blast
next
  assume "gather (Object_assign dflt oa) fs = Inl e"
  then show "migrate oa dflt fs w = (Exited 1 e, Object_assign dflt oa, w)"
    by (simp add: migrate_def)
next
  assume a: "gather (Object_assign dflt oa) fs = Inr found \<and> single_arg oa = Some (Some tokens) \<and>
    find (\<lambda>t. coerce t = None) tokens = Some t"
  then have "select oa found = Inl (InvalidSelector t)"
    by (simp add: select_def first_invalid)
  with a show "migrate oa dflt fs w = (Exited 1 (InvalidSelector t), Object_assign dflt oa, w)"
    by (simp add: migrate_def)
next
  assume a: "gather (Object_assign dflt oa) fs = Inr found \<and> single_arg oa = Some (Some tokens) \<and>
    find (\<lambda>t. coerce t = None) tokens = None \<and>
    find (\<lambda>t. the (coerce t) \<notin> version ` set found) tokens = Some t"
  then have "select oa found = Inl (UnknownVersion (the (coerce t)))"
    by (simp add: select_def all_valid first_unknown)
  with a show "migrate oa dflt fs w =
      (Exited 1 (UnknownVersion (the (coerce t))), Object_assign dflt oa, w)"
    by (simp add: migrate_def)
qed

theorem selection_runs_in_version_order_witness:
  "gather (Object_assign defaults only_2_1) (installation pattern0 three_ok_files) = Inr [m1, m2, m3] \<and>
   single_arg only_2_1 = Some (Some [''2.0.0'', ''1.0.0'']) \<and>
   select only_2_1 [m1, m2, m3] = Inr [m1, m2] \<and>
   mset (map (\<lambda>m. Some (version m)) [m1, m2]) = mset (map coerce [''2.0.0'', ''1.0.0'']) \<and>
   invoked (new_events w0 (snd (snd (migrate only_2_1 defaults (installation pattern0 three_ok_files) w0))))
     = [(1, 0, 0), (2, 0, 0)] \<and>
   sorted_wrt (\<lambda>a b. \<not> gt a b) [(1, 0, 0), (2, 0, 0)] \<and>
   gather (Object_assign defaults only_unknown) (installation pattern0 two_files) = Inr [m1, m2] \<and>
   find (\<lambda>t. coerce t = None) [''9.9.9''] = None \<and>
   find (\<lambda>t. the (coerce t) \<notin> version ` set [m1, m2]) [''9.9.9''] = Some ''9.9.9'' \<and>
   migrate only_unknown defaults (installation pattern0 two_files) w0 =
     (Exited 1 (UnknownVersion (9, 9, 9)), Object_assign defaults only_unknown, w0) \<and>
   find (\<lambda>t. coerce t = None) [''1'', ''abc''] = Some ''abc'' \<and>
   migrate only_1_invalid defaults (installation pattern0 two_files) w0 =
     (Exited 1 (InvalidSelector ''abc''), Object_assign defaults only_1_invalid, w0) \<and>
   gather (Object_assign defaults only_1) (installation pattern0 duplicate_files)
     = Inl (DuplicateVersion (1, 0, 0)) \<and>
   migrate only_1 defaults (installation pattern0 duplicate_files) w0 =
     (Exited 1 (DuplicateVersion (1, 0, 0)), Object_assign defaults only_1, w0)"
proof -
  let ?fs3 = "installation pattern0 three_ok_files" and ?fs = "installation pattern0 two_files"
  have g: "gather (Object_assign defaults only_2_1) ?fs3 = Inr [m1, m2, m3]"
    by (simp add: string_defs engine_defs world_defs pattern0_def three_ok_files_def only_2_1_def)
  have sa: "single_arg only_2_1 = Some (Some [''2.0.0'', ''1.0.0''])"
    by (simp add: only_2_1_def no_options_def)
  have s: "select only_2_1 [m1, m2, m3] = Inr [m1, m2]"
    by (simp add: string_defs engine_defs world_defs only_2_1_def)
  have m: "snd (snd (migrate only_2_1 defaults ?fs3 w0))
      = snd (runMigrations [m1, m2] (Object_assign defaults only_2_1) w0)"
    by (simp add: migrate_def g s split: prod.splits option.splits)
  have e: "invoked (new_events w0 (snd (snd (migrate only_2_1 defaults ?fs3 w0)))) = [(1, 0, 0), (2, 0, 0)]"
    unfolding m by (simp add: loop_defs world_defs run_defs only_2_1_def)
  note A = selection_runs_in_version_order [where w = w0 and oa = only_2_1 and dflt = defaults
      and fs = ?fs3 and tokens = "[''2.0.0'', ''1.0.0'']" and found = "[m1, m2, m3]" and ms = "[m1, m2]"]
  from A e have o: "sorted_wrt (\<lambda>a b. \<not> gt a b) [(1, 0, 0), (2, 0, 0)]"
    by simp
  from A sa s have t: "mset (map (\<lambda>m. Some (version m)) [m1, m2]) = mset (map coerce [''2.0.0'', ''1.0.0''])"
    by blast
  have g': "gather (Object_assign defaults only_unknown) ?fs = Inr [m1, m2]"
    by (simp add: string_defs engine_defs example_defs only_unknown_def)
  have sa': "single_arg only_unknown = Some (Some [''9.9.9''])"
    by (simp add: only_unknown_def no_options_def)
  have c: "coerce ''9.9.9'' = Some (9, 9, 9)"
    by (simp add: string_defs)
  have p: "find (\<lambda>t. coerce t = None) [''9.9.9''] = None"
    and q: "find (\<lambda>t. the (coerce t) \<notin> version ` set [m1, m2]) [''9.9.9''] = Some ''9.9.9''"
    by (simp_all add: c world_defs)
  from selection_runs_in_version_order [where w = w0 and oa = only_unknown and dflt = defaults
      and fs = ?fs and tokens = "[''9.9.9'']" and found = "[m1, m2]" and t = "''9.9.9''"] g' sa' p q c
  have u: "migrate only_unknown defaults ?fs w0 =
      (Exited 1 (UnknownVersion (9, 9, 9)), Object_assign defaults only_unknown, w0)"
    by simp
  have g'': "gather (Object_assign defaults only_1_invalid) ?fs = Inr [m1, m2]"
    by (simp add: string_defs engine_defs example_defs only_1_invalid_def)
  have sa'': "single_arg only_1_invalid = Some (Some [''1'', ''abc''])"
    by (simp add: only_1_invalid_def no_options_def)
  have i: "find (\<lambda>t. coerce t = None) [''1'', ''abc''] = Some ''abc''"
    by (simp add: string_defs)
  from selection_runs_in_version_order [where w = w0 and oa = only_1_invalid and dflt = defaults
      and fs = ?fs and tokens = "[''1'', ''abc'']" and found = "[m1, m2]" and t = "''abc''"] g'' sa'' i
  have v: "migrate only_1_invalid defaults ?fs w0 =
      (Exited 1 (InvalidSelector ''abc''), Object_assign defaults only_1_invalid, w0)"
    by simp
  have d: "gather (Object_assign defaults only_1) (installation pattern0 duplicate_files)
      = Inl (DuplicateVersion (1, 0, 0))"
    by (simp add: string_defs engine_defs world_defs pattern0_def duplicate_files_def only_1_def)
  from selection_runs_in_version_order [where w = w0 and oa = only_1 and dflt = defaults
      and fs = "installation pattern0 duplicate_files" and e = "DuplicateVersion (1, 0, 0)"] d
  have x: "migrate only_1 defaults (installation pattern0 duplicate_files) w0 =
      (Exited 1 (DuplicateVersion (1, 0, 0)), Object_assign defaults only_1, w0)"
    by simp
  from g sa s t e o g' p q u i v d x show ?thesis by blast
qed

text \<open>
  Claim C8 as stated fails: all tokens are coerced before any is looked up, so a token
  that cannot be coerced, listed after one that matches no descriptor, makes the call
  fail with the error for the invalid selector and not with \<open>UnknownVersion\<close>.
\<close>

theorem unknown_token_after_invalid_counterexample:
  "gather (Object_assign defaults only_unknown_and_invalid) (installation pattern0 two_files)
     = Inr [m1, m2] \<and>
   selected_tokens only_unknown_and_invalid = [''9.9.9'', ''abc''] \<and>
   coerce ''9.9.9'' = Some (9, 9, 9) \<and> (9, 9, 9) \<notin> version ` set [m1, m2] \<and>
   migrate only_unknown_and_invalid defaults (installation pattern0 two_files) w0 =
     (Exited 1 (InvalidSelector ''abc''), Object_assign defaults only_unknown_and_invalid, w0)"
proof -
  have g: "gather (Object_assign defaults only_unknown_and_invalid) (installation pattern0 two_files)
      = Inr [m1, m2]"
    by (simp add: string_defs engine_defs example_defs only_unknown_and_invalid_def)
  have s: "select only_unknown_and_invalid [m1, m2] = Inl (InvalidSelector ''abc'')"
    by (simp add: string_defs select_def select_version_def only_unknown_and_invalid_def no_options_def)
  have t: "selected_tokens only_unknown_and_invalid = [''9.9.9'', ''abc'']"
    by (simp add: selected_tokens_def only_unknown_and_invalid_def no_options_def)
  have c: "coerce ''9.9.9'' = Some (9, 9, 9) \<and> (9, 9, 9) \<notin> version ` set [m1, m2]"
    by (simp add: string_defs world_defs)
  from g s t c show ?thesis by (simp add: migrate_def)
qed

section \<open>Duplicate versions\<close>






section \<open>The delimiter filter\<close>

text \<open>
  Claim C9. The filter of \<open>gather\<close> tests the path that glob returns, directory
  included, and not the file name. In the directory \<open>a__b\<close> the file \<open>helper.js\<close>,
  whose name does not contain the delimiter \<open>__\<close>, passes the filter and discovery
  fails with \<open>InvalidVersion\<close>, in both snapshots; in the directory \<open>migrations\<close> the
  same file is ignored and discovery returns the one migration.
\<close>

theorem helper_file_in_directory_with_delimiter:
  "\<not> str_includes (basename ''a__b/helper.js'') ''__'' \<and>
   gather (Object_assign defaults in_a__b) (installation ''a__b/*.js'' helper_listing)
     = Inl (InvalidVersion ''helper.js'') \<and>
   gather_index (Object_assign defaults in_a__b) (installation ''a__b/*.js'' helper_listing)
     = Inl (InvalidVersion ''helper.js'') \<and>
   gather (Object_assign defaults in_migrations) (installation ''migrations/*.js'' plain_listing)
     = Inr [\<lparr>version = (1, 0, 0), name = ''init'', fn = ok_fn\<rparr>]"
proof -
  have a: "\<not> str_includes (basename ''a__b/helper.js'') ''__''"
    by (simp add: string_defs)
  have b: "gather (Object_assign defaults in_a__b) (installation ''a__b/*.js'' helper_listing)
     = Inl (InvalidVersion ''helper.js'')"
    by (simp add: string_defs engine_defs world_defs in_a__b_def helper_listing_def)
  have c: "gather (Object_assign defaults in_migrations) (installation ''migrations/*.js'' plain_listing)
     = Inr [\<lparr>version = (1, 0, 0), name = ''init'', fn = ok_fn\<rparr>]"
    by (simp add: string_defs engine_defs world_defs in_migrations_def plain_listing_def)
  from a b c show ?thesis by (simp add: gather_index_eq)
qed

section \<open>The module-level defaults\<close>

lemma gather_single: "gather (options\<lparr>single := x\<rparr>) fs = gather options fs"
  by (simp add: gather_def files_of_def split: option.splits)

lemma runMigrations_single:
  "runMigrations ms (options\<lparr>single := x\<rparr>) w = runMigrations ms options w"
  by (induction ms arbitrary: w) (simp_all add: runMigrations_Cons skips_def)

lemma runMigrations_index_single:
  "runMigrations_index ms (options\<lparr>single := x\<rparr>) w = runMigrations_index ms options w"
  by (induction ms arbitrary: w) (simp_all add: runMigrations_index_Cons skips_def)

lemma select_overlay: "select (overlay oa oa2) found = select oa2 found"
  by (simp add: select_def overlay_def)

lemma assign_overlay:
  "Object_assign (Object_assign dflt oa) oa2 =
     (Object_assign dflt (overlay oa oa2))
       \<lparr>single := assign_property (assign_property (single dflt) (single_arg oa)) (single_arg oa2)\<rparr>"
  by (simp add: Object_assign_def overlay_def assign_property_def later_property_def split: option.splits)

lemma migrate_later:
  "fst (migrate oa2 (Object_assign dflt oa) fs w) = fst (migrate (overlay oa oa2) dflt fs w) \<and>
   snd (snd (migrate oa2 (Object_assign dflt oa) fs w)) = snd (snd (migrate (overlay oa oa2) dflt fs w))"
proof -
  have "migrate oa2 (Object_assign dflt oa) fs w =
      (fst (migrate (overlay oa oa2) dflt fs w),
       (Object_assign dflt (overlay oa oa2))
         \<lparr>single := assign_property (assign_property (single dflt) (single_arg oa)) (single_arg oa2)\<rparr>,
       snd (snd (migrate (overlay oa oa2) dflt fs w)))"
    unfolding migrate_def [of oa2] assign_overlay [of dflt oa oa2] gather_single runMigrations_single
    by (simp add: migrate_def select_overlay split: sum.splits prod.splits option.splits)
  then show ?thesis by simp
qed

lemma migrate_index_later:
  "fst (migrate_index oa2 (Object_assign dflt oa) fs w) = fst (migrate_index (overlay oa oa2) dflt fs w) \<and>
   snd (snd (migrate_index oa2 (Object_assign dflt oa) fs w))
     = snd (snd (migrate_index (overlay oa oa2) dflt fs w))"
proof -
  have "migrate_index oa2 (Object_assign dflt oa) fs w =
      (fst (migrate_index (overlay oa oa2) dflt fs w),
       (Object_assign dflt (overlay oa oa2))
         \<lparr>single := assign_property (assign_property (single dflt) (single_arg oa)) (single_arg oa2)\<rparr>,
       snd (snd (migrate_index (overlay oa oa2) dflt fs w)))"
    unfolding migrate_index_def [of oa2] assign_overlay [of dflt oa oa2] gather_index_eq gather_single
      runMigrations_index_single
    by (simp add: migrate_index_def gather_index_eq split: sum.splits)
  then show ?thesis by simp
qed

lemma migrate_dry_silent:
  assumes "truthy (dryRun (Object_assign dflt oa))"
  shows "invoked (new_events w (snd (snd (migrate oa dflt fs w)))) = []"
proof (cases rule: migrate_cases [of dflt oa fs w])
  case (discovery e)
  then show ?thesis by simp
next
  case (selection found e)
  then show ?thesis by simp
next
  case (run found sel)
  then show ?thesis
    by (simp add: dry_run [OF assms] new_events_def dry_run_report_silent)
qed

text \<open>
  Claim C10. In both snapshots a call of \<open>migrate\<close> leaves the merged options in the
  module-level object \<open>defaults\<close>. A later call therefore ends as, and leaves the world
  as, a call on the original defaults whose argument passes again every property the
  later call omits and the earlier call passed. The merged options of the later call
  hold, for each of the five properties it omits, the value the earlier call passed;
  only the selector is then not used, since \<open>migrate\<close> reads the selector from its
  argument. In particular after a call with \<open>dryRun\<close> true a call that omits \<open>dryRun\<close>
  is a dry run and invokes no procedure.
\<close>

theorem defaults_mutated_in_place:
  "fst (snd (migrate oa dflt fs w)) = Object_assign dflt oa \<and>
   fst (snd (migrate_index oa dflt fs w)) = Object_assign dflt oa \<and>
   (directory_arg oa = Some x1 \<and> directory_arg oa2 = None \<longrightarrow>
      directory (Object_assign (fst (snd (migrate oa dflt fs w))) oa2) = x1) \<and>
   (delimiter_arg oa = Some x2 \<and> delimiter_arg oa2 = None \<longrightarrow>
      delimiter (Object_assign (fst (snd (migrate oa dflt fs w))) oa2) = x2) \<and>
   (ignoreRemote_arg oa = Some x3 \<and> ignoreRemote_arg oa2 = None \<longrightarrow>
      ignoreRemote (Object_assign (fst (snd (migrate oa dflt fs w))) oa2) = x3) \<and>
   (single_arg oa = Some x4 \<and> single_arg oa2 = None \<longrightarrow>
      single (Object_assign (fst (snd (migrate oa dflt fs w))) oa2) = x4) \<and>
   (dryRun_arg oa = Some x5 \<and> dryRun_arg oa2 = None \<longrightarrow>
      dryRun (Object_assign (fst (snd (migrate oa dflt fs w))) oa2) = x5) \<and>
   fst (migrate oa2 (fst (snd (migrate oa dflt fs w))) fs2 w2)
     = fst (migrate (overlay oa oa2) dflt fs2 w2) \<and>
   snd (snd (migrate oa2 (fst (snd (migrate oa dflt fs w))) fs2 w2))
     = snd (snd (migrate (overlay oa oa2) dflt fs2 w2)) \<and>
   fst (migrate_index oa2 (fst (snd (migrate_index oa dflt fs w))) fs2 w2)
     = fst (migrate_index (overlay oa oa2) dflt fs2 w2) \<and>
   snd (snd (migrate_index oa2 (fst (snd (migrate_index oa dflt fs w))) fs2 w2))
     = snd (snd (migrate_index (overlay oa oa2) dflt fs2 w2)) \<and>
   (dryRun_arg oa = Some (Some True) \<and> dryRun_arg oa2 = None \<longrightarrow>
      invoked (new_events w2 (snd (snd (migrate oa2 (fst (snd (migrate oa dflt fs w))) fs2 w2)))) = [])"
proof -
  have d: "fst (snd (migrate oa dflt fs w)) = Object_assign dflt oa"
    by (simp add: migrate_def split: sum.splits prod.splits option.splits)
  have di: "fst (snd (migrate_index oa dflt fs w)) = Object_assign dflt oa"
    by (simp add: migrate_index_def split: sum.splits)
  have f1: "directory_arg oa = Some x1 \<and> directory_arg oa2 = None \<longrightarrow>
      directory (Object_assign (Object_assign dflt oa) oa2) = x1"
    and f2: "delimiter_arg oa = Some x2 \<and> delimiter_arg oa2 = None \<longrightarrow>
      delimiter (Object_assign (Object_assign dflt oa) oa2) = x2"
    and f3: "ignoreRemote_arg oa = Some x3 \<and> ignoreRemote_arg oa2 = None \<longrightarrow>
      ignoreRemote (Object_assign (Object_assign dflt oa) oa2) = x3"
    and f4: "single_arg oa = Some x4 \<and> single_arg oa2 = None \<longrightarrow>
      single (Object_assign (Object_assign dflt oa) oa2) = x4"
    and f5: "dryRun_arg oa = Some x5 \<and> dryRun_arg oa2 = None \<longrightarrow>
      dryRun (Object_assign (Object_assign dflt oa) oa2) = x5"
    by (simp_all add: Object_assign_def assign_property_def)
  have "invoked (new_events w2 (snd (snd (migrate oa2 (Object_assign dflt oa) fs2 w2)))) = []"
    if "dryRun_arg oa = Some (Some True) \<and> dryRun_arg oa2 = None"
  proof (rule migrate_dry_silent)
    from that show "truthy (dryRun (Object_assign (Object_assign dflt oa) oa2))"
      by (simp add: Object_assign_def assign_property_def truthy_def)
  qed
  with d di f1 f2 f3 f4 f5 migrate_later [of oa2 dflt oa fs2 w2] migrate_index_later [of oa2 dflt oa fs2 w2]
  show ?thesis by simp
qed

theorem defaults_mutated_in_place_witness:
  "migrate dry defaults (installation pattern0 two_files) w0 =
     (Returned, defaults\<lparr>dryRun := Some True\<rparr>,
      w0\<lparr>trace := [Get (1, 0, 0), Print (1, 0, 0) SkipDueToDryRun]\<rparr>) \<and>
   dryRun_arg dry = Some (Some True) \<and> dryRun_arg no_options = None \<and>
   invoked (new_events w0 (snd (snd (migrate no_options (defaults\<lparr>dryRun := Some True\<rparr>)
     (installation pattern0 two_files) w0)))) = [] \<and>
   invoked (new_events w0 (snd (snd (migrate no_options defaults
     (installation pattern0 two_files) w0)))) = [(1, 0, 0), (2, 0, 0)]"
proof -
  let ?fs = "installation pattern0 two_files"
  have g: "gather (Object_assign defaults dry) ?fs = Inr [m1, m2]"
    by (simp add: string_defs engine_defs example_defs dry_def)
  have s: "select dry [m1, m2] = Inr [m1, m2]"
    by (simp add: select_def dry_def no_options_def)
  have o: "Object_assign defaults dry = defaults\<lparr>dryRun := Some True\<rparr>"
    by (simp add: loop_defs dry_def no_options_def)
  have r: "runMigrations [m1, m2] (Object_assign defaults dry) w0 =
      (None, w0\<lparr>trace := [Get (1, 0, 0), Print (1, 0, 0) SkipDueToDryRun]\<rparr>)"
    by (simp add: loop_defs world_defs run_defs dry_def)
  have first: "migrate dry defaults ?fs w0 =
      (Returned, defaults\<lparr>dryRun := Some True\<rparr>,
       w0\<lparr>trace := [Get (1, 0, 0), Print (1, 0, 0) SkipDueToDryRun]\<rparr>)"
    by (simp add: migrate_def g s r) (simp add: o)
  have a: "dryRun_arg dry = Some (Some True) \<and> dryRun_arg no_options = None"
    by (simp add: dry_def no_options_def)
  have g0: "gather (Object_assign defaults no_options) ?fs = Inr [m1, m2]"
    by (simp add: string_defs engine_defs example_defs)
  have s0: "select no_options [m1, m2] = Inr [m1, m2]"
    by (simp add: select_def no_options_def)
  have m0: "snd (snd (migrate no_options defaults ?fs w0))
      = snd (runMigrations [m1, m2] (Object_assign defaults no_options) w0)"
    by (simp add: migrate_def g0 s0 split: prod.splits option.splits)
  have fresh: "invoked (new_events w0 (snd (snd (migrate no_options defaults ?fs w0)))) = [(1, 0, 0), (2, 0, 0)]"
    unfolding m0 by (simp add: loop_defs world_defs run_defs)
  from defaults_mutated_in_place [of dry defaults ?fs w0 _ no_options _ _ _ _ ?fs w0] a
  have second: "invoked (new_events w0
      (snd (snd (migrate no_options (fst (snd (migrate dry defaults ?fs w0))) ?fs w0)))) = []"
    by blast
  have ds: "fst (snd (migrate dry defaults ?fs w0)) = defaults\<lparr>dryRun := Some True\<rparr>"
    by (simp add: first)
  from second
  have "invoked (new_events w0 (snd (snd (migrate no_options (defaults\<lparr>dryRun := Some True\<rparr>) ?fs w0)))) = []"
    unfolding ds .
  with first a fresh show ?thesis by blast
qed

end
